theory Spec2Isabelle
  imports Complex_Main "HOL-Library.List_Lexorder" "HOL-Library.Product_Lexorder"
begin

section \<open>Valuations and precisions\<close>

text \<open>
  Valuations and absolute precisions are rationals (the log-radii of an algebra may be
  rational) or Sage's \<open>+Infinity\<close>: the valuation of a zero coefficient and the
  precision of an exact series.
\<close>

datatype ext = Fin rat | PInf

instantiation ext :: linorder
begin

fun less_eq_ext :: "ext \<Rightarrow> ext \<Rightarrow> bool" where
  "less_eq_ext (Fin a) (Fin b) = (a \<le> b)"
| "less_eq_ext PInf (Fin b) = False"
| "less_eq_ext a PInf = True"

definition less_ext :: "ext \<Rightarrow> ext \<Rightarrow> bool" where
  "less_ext a b = (a \<le> b \<and> \<not> b \<le> a)"

instance
proof
  fix x y z :: ext
  show "(x < y) = (x \<le> y \<and> \<not> y \<le> x)"
    by (simp add: less_ext_def)
  show "x \<le> x"
    by (cases x) simp_all
  show "x \<le> y \<Longrightarrow> y \<le> z \<Longrightarrow> x \<le> z"
    by (cases x; cases y; cases z) simp_all
  show "x \<le> y \<Longrightarrow> y \<le> x \<Longrightarrow> x = y"
    by (cases x; cases y) simp_all
  show "x \<le> y \<or> y \<le> x"
    by (cases x; cases y) auto
qed

end

text \<open>Sums and differences, with \<open>Infinity\<close> absorbing.\<close>

fun eadd :: "ext \<Rightarrow> ext \<Rightarrow> ext" where
  "eadd (Fin a) (Fin b) = Fin (a + b)"
| "eadd PInf b = PInf"
| "eadd a PInf = PInf"

fun esub_rat :: "ext \<Rightarrow> rat \<Rightarrow> ext" where
  "esub_rat (Fin a) r = Fin (a - r)"
| "esub_rat PInf r = PInf"

text \<open>Python 2's \<open>cmp\<close>: \<open>-1\<close>, \<open>0\<close> or \<open>1\<close>.\<close>

definition cmp3 :: "'a::linorder \<Rightarrow> 'a \<Rightarrow> int" where
  "cmp3 a b = (if a < b then - 1 else if a = b then 0 else 1)"

text \<open>\<open>cmp(-a, -b)\<close> on valuations: negation reverses the order.\<close>

definition cmp_neg :: "ext \<Rightarrow> ext \<Rightarrow> int" where
  "cmp_neg a b = cmp3 b a"

section \<open>The collaborators: base ring and ambient algebra\<close>

datatype error =
    ValueError_exponent_length
  | ValueError_bigger_domain
  | TypeError_variable_names
  | ValueError_not_exact
  | ValueError_not_invertible
  | ValueError_max_empty
  | TypeError_arguments
  | TypeError_None
  | AttributeError_None
  | IndexError
  | ZeroDivisionError
  | TypeError_precision
  | ValueError_not_in_base_ring

text \<open>
  The base ring is not part of the engine: its operations are parameters, functions on
  a carrier \<open>'c\<close> that holds the elements of the base ring and of its fraction field,
  where the coefficients of terms live. Two of its operations are partial, and the
  model checks their arguments before it applies the parameter: the conversion
  \<open>base(c)\<close> into a ring that is not a field (\<open>to_base\<close> below), and \<open>c.add_bigoh(n)\<close>,
  which takes an integer or \<open>Infinity\<close> (\<open>reduce_coefficients\<close> below). \<open>c_rshift\<close> is
  \<open>>>\<close> in the base ring, \<open>c_lshift\<close> is \<open><<\<close> in the fraction field.
\<close>

record 'c base_ring =
  is_field :: bool
  absolute_e :: rat
  c_zero :: 'c
  c_of_int :: "int \<Rightarrow> 'c"
  c_add :: "'c \<Rightarrow> 'c \<Rightarrow> 'c"
  c_neg :: "'c \<Rightarrow> 'c"
  c_mul :: "'c \<Rightarrow> 'c \<Rightarrow> 'c"
  c_div :: "'c \<Rightarrow> 'c \<Rightarrow> 'c"
  c_valuation :: "'c \<Rightarrow> ext"
  uniformizer_pow :: "ext \<Rightarrow> 'c"
  val_unit :: "'c \<Rightarrow> int \<times> 'c"
  c_inverse_of_unit :: "'c \<Rightarrow> 'c"
  c_add_bigoh :: "'c \<Rightarrow> ext \<Rightarrow> 'c"
  c_lshift :: "'c \<Rightarrow> int \<Rightarrow> 'c"
  c_rshift :: "'c \<Rightarrow> int \<Rightarrow> 'c"

text \<open>
  Modelled from the spec: the conversion \<open>base(c)\<close> of a coefficient into the base ring.
  The elements of a valuation ring that is not a field have valuation at least 0, and
  the conversion of any other element raises.
\<close>

definition to_base :: "'c base_ring \<Rightarrow> 'c \<Rightarrow> error + 'c" where
  "to_base R c =
     (if \<not> is_field R \<and> c_valuation R c < Fin 0 then Inl ValueError_not_in_base_ring
      else Inr c)"

text \<open>
  Modelled from the spec: the precisions that \<open>add_bigoh\<close> of the base ring accepts, a
  number of digits: an integer, or \<open>Infinity\<close>. Any other precision raises.
\<close>

fun is_integral_prec :: "ext \<Rightarrow> bool" where
  "is_integral_prec (Fin r) = (of_int \<lfloor>r\<rfloor> = r)"
| "is_integral_prec PInf = True"

text \<open>
  The ambient algebra (the \<open>parent\<close> of the source). \<open>ident\<close> is the identity of the
  parent object, which \<open>xparent is parent\<close> compares; \<open>sortkey\<close> is the
  \<open>sortkey\<close> of its term order.
\<close>

record ('c, 'k) parent =
  ident :: nat
  base :: "'c base_ring"
  variable_names :: "string list"
  log_radii :: "rat list"
  precision_cap :: int
  sortkey :: "nat list \<Rightarrow> 'k"

definition ngens :: "('c, 'k) parent \<Rightarrow> nat" where
  "ngens P = length (variable_names P)"

section \<open>Terms\<close>

record 'c tate_term =
  term_coeff :: 'c
  term_exponent :: "nat list"

text \<open>\<open>TateAlgebraTerm.__init__\<close>: the length of the exponent is checked.\<close>

definition term_init :: "('c, 'k) parent \<Rightarrow> 'c \<Rightarrow> nat list \<Rightarrow> error + 'c tate_term" where
  "term_init P c e =
     (if length e \<noteq> ngens P then Inl ValueError_exponent_length
      else Inr \<lparr>term_coeff = c, term_exponent = e\<rparr>)"

definition coefficient :: "'c tate_term \<Rightarrow> 'c" where
  "coefficient t = term_coeff t"

definition exponent :: "'c tate_term \<Rightarrow> nat list" where
  "exponent t = term_exponent t"

text \<open>
  \<open>TateAlgebraTerm.valuation\<close>:
  \<open>self._coeff.valuation() - sum(self._exponent[i]*parent._log_radii[i] for i in range(parent._ngens))\<close>.
  The exponent of a term has \<open>ngens\<close> entries by \<open>term_init\<close>, the log-radii by the
  construction of the algebra.
\<close>

definition term_valuation :: "('c, 'k) parent \<Rightarrow> 'c tate_term \<Rightarrow> ext" where
  "term_valuation P t =
     esub_rat (c_valuation (base P) (term_coeff t))
       (\<Sum>i\<leftarrow>[0..<ngens P]. of_nat (term_exponent t ! i) * (log_radii P ! i))"

text \<open>\<open>TateAlgebraTerm._cmp_\<close>.\<close>

definition term_cmp :: "('c, 'k::linorder) parent \<Rightarrow> 'c tate_term \<Rightarrow> 'c tate_term \<Rightarrow> int" where
  "term_cmp P t1 t2 =
     (let c = cmp_neg (term_valuation P t1) (term_valuation P t2)
      in if c \<noteq> 0 then c
         else cmp3 (sortkey P (term_exponent t1)) (sortkey P (exponent t2)))"

text \<open>\<open>ETuple.emin\<close>, \<open>emax\<close>, \<open>eadd\<close>, \<open>esub\<close> on exponents of one length.\<close>

definition emin :: "nat list \<Rightarrow> nat list \<Rightarrow> nat list" where
  "emin e1 e2 = map2 min e1 e2"

definition emax :: "nat list \<Rightarrow> nat list \<Rightarrow> nat list" where
  "emax e1 e2 = map2 max e1 e2"

definition etuple_add :: "nat list \<Rightarrow> nat list \<Rightarrow> nat list" where
  "etuple_add e1 e2 = map2 (+) e1 e2"

definition etuple_sub :: "nat list \<Rightarrow> nat list \<Rightarrow> nat list" where
  "etuple_sub e1 e2 = map2 (-) e1 e2"

text \<open>\<open>TateAlgebraTerm.gcd\<close> and \<open>TateAlgebraTerm.lcm\<close>.\<close>

definition term_gcd :: "('c, 'k) parent \<Rightarrow> 'c tate_term \<Rightarrow> 'c tate_term \<Rightarrow> error + 'c tate_term" where
  "term_gcd P t1 t2 =
     (let exponent = emin (term_exponent t1) (exponent t2);
          val = min (c_valuation (base P) (term_coeff t1)) (c_valuation (base P) (coefficient t2))
      in term_init P (uniformizer_pow (base P) val) exponent)"

definition term_lcm :: "('c, 'k) parent \<Rightarrow> 'c tate_term \<Rightarrow> 'c tate_term \<Rightarrow> error + 'c tate_term" where
  "term_lcm P t1 t2 =
     (let exponent = emax (term_exponent t1) (exponent t2);
          val = max (c_valuation (base P) (term_coeff t1)) (c_valuation (base P) (coefficient t2))
      in term_init P (uniformizer_pow (base P) val) exponent)"

text \<open>Sequencing of fallible steps: the first error is the result.\<close>

definition ebind :: "error + 'a \<Rightarrow> ('a \<Rightarrow> error + 'b) \<Rightarrow> error + 'b" where
  "ebind m f = (case m of Inl err \<Rightarrow> Inl err | Inr x \<Rightarrow> f x)"

text \<open>\<open>TateAlgebraTerm._mul_\<close>.\<close>

definition term_mul :: "('c, 'k) parent \<Rightarrow> 'c tate_term \<Rightarrow> 'c tate_term \<Rightarrow> error + 'c tate_term" where
  "term_mul P t1 t2 =
     (let exponent = etuple_add (term_exponent t1) (exponent t2)
      in term_init P (c_mul (base P) (term_coeff t1) (coefficient t2)) exponent)"

text \<open>
  \<open>TateAlgebraTerm.is_divisible_by\<close>. The other term is \<open>None\<close> when it is the leading
  term of a zero series; the coercion of the two operands then fails.
\<close>

definition term_is_divisible_by ::
  "('c, 'k) parent \<Rightarrow> 'c tate_term \<Rightarrow> 'c tate_term option \<Rightarrow> bool \<Rightarrow> error + bool" where
  "term_is_divisible_by P t1 other integral =
     (case other of
        None \<Rightarrow> Inl TypeError_None
      | Some t2 \<Rightarrow>
          if (integral \<or> \<not> is_field (base P)) \<and> term_valuation P t1 < term_valuation P t2
          then Inr False
          else if list_ex (\<lambda>i. term_exponent t1 ! i < exponent t2 ! i) [0..<ngens P]
          then Inr False
          else Inr True)"

text \<open>
  \<open>TateAlgebraTerm.__floordiv__\<close>. The quotient of the coefficients is taken in the
  fraction field, where the division by zero raises.
\<close>

definition term_floordiv :: "('c, 'k) parent \<Rightarrow> 'c tate_term \<Rightarrow> 'c tate_term \<Rightarrow> error + 'c tate_term" where
  "term_floordiv P t1 t2 =
     (if \<not> is_field (base P) \<and> term_valuation P t1 < term_valuation P t2
      then Inl ValueError_not_exact
      else if list_ex (\<lambda>i. exponent t1 ! i < exponent t2 ! i) [0..<ngens P]
      then Inl ValueError_not_exact
      else if coefficient t2 = c_zero (base P) then Inl ZeroDivisionError
      else term_init P (c_div (base P) (coefficient t1) (coefficient t2))
             (etuple_sub (exponent t1) (exponent t2)))"

section \<open>The polynomial ring of the algebra\<close>

text \<open>
  Modelled from the spec: the polynomial ring \<open>parent._polynomial_ring\<close>, whose code is
  not part of the engine. A polynomial is the finite mapping from exponent vectors to
  coefficients of the spec (section 3), kept as an association list in the iteration
  order of its dictionary; entries with zero coefficient are not stored. Sum and
  difference are coefficient-wise, the product is the full polynomial product.
\<close>

type_synonym 'c mpoly = "(nat list \<times> 'c) list"

definition poly_normalize :: "'c base_ring \<Rightarrow> 'c mpoly \<Rightarrow> 'c mpoly" where
  "poly_normalize R p = filter (\<lambda>(e, c). c \<noteq> c_zero R) p"

fun poly_add_term :: "'c base_ring \<Rightarrow> nat list \<Rightarrow> 'c \<Rightarrow> 'c mpoly \<Rightarrow> 'c mpoly" where
  "poly_add_term R e c [] = (if c = c_zero R then [] else [(e, c)])"
| "poly_add_term R e c ((e', c') # p) =
     (if e' = e
      then (if c_add R c' c = c_zero R then p else (e', c_add R c' c) # p)
      else (e', c') # poly_add_term R e c p)"

definition map_coefficients :: "'c base_ring \<Rightarrow> ('c \<Rightarrow> 'c) \<Rightarrow> 'c mpoly \<Rightarrow> 'c mpoly" where
  "map_coefficients R f p = poly_normalize R (map (\<lambda>(e, c). (e, f c)) p)"

definition poly_add :: "'c base_ring \<Rightarrow> 'c mpoly \<Rightarrow> 'c mpoly \<Rightarrow> 'c mpoly" where
  "poly_add R p q = fold (\<lambda>(e, c). poly_add_term R e c) q p"

definition poly_neg :: "'c base_ring \<Rightarrow> 'c mpoly \<Rightarrow> 'c mpoly" where
  "poly_neg R p = map_coefficients R (c_neg R) p"

definition poly_sub :: "'c base_ring \<Rightarrow> 'c mpoly \<Rightarrow> 'c mpoly \<Rightarrow> 'c mpoly" where
  "poly_sub R p q = poly_add R p (poly_neg R q)"

definition poly_scale :: "'c base_ring \<Rightarrow> 'c mpoly \<Rightarrow> 'c \<Rightarrow> 'c mpoly" where
  "poly_scale R p a = map_coefficients R (\<lambda>c. c_mul R c a) p"

definition poly_mul :: "'c base_ring \<Rightarrow> 'c mpoly \<Rightarrow> 'c mpoly \<Rightarrow> 'c mpoly" where
  "poly_mul R p q =
     fold (\<lambda>(e1, c1) acc.
            fold (\<lambda>(e2, c2). poly_add_term R (etuple_add e1 e2) (c_mul R c1 c2)) q acc)
          p []"

definition poly_monomial :: "'c base_ring \<Rightarrow> 'c \<Rightarrow> nat list \<Rightarrow> 'c mpoly" where
  "poly_monomial R c e = poly_normalize R [(e, c)]"

definition poly_const :: "('c, 'k) parent \<Rightarrow> 'c \<Rightarrow> 'c mpoly" where
  "poly_const P c = poly_monomial (base P) c (replicate (ngens P) 0)"

definition poly_is_zero :: "'c base_ring \<Rightarrow> 'c mpoly \<Rightarrow> bool" where
  "poly_is_zero R p = (poly_normalize R p = [])"

section \<open>Elements\<close>

text \<open>
  A series: its polynomial and its absolute precision. The cache \<open>_terms\<close> of the source
  memoizes \<open>terms()\<close> and is not part of the value.
\<close>

record 'c tate_element =
  elt_poly :: "'c mpoly"
  elt_prec :: ext

text \<open>
  What the constructor is given as \<open>x\<close>: a series or a term with its parent, or data
  that the polynomial ring converts (\<open>S(x)\<close>): a polynomial or a dictionary, an element
  of the base ring, an integer.
\<close>

datatype ('c, 'k) init_arg =
    From_element "('c, 'k) parent" "'c tate_element"
  | From_term "('c, 'k) parent" "'c tate_term"
  | From_poly "'c mpoly"
  | From_coeff 'c
  | From_int int

fun eadd_rat :: "ext \<Rightarrow> rat \<Rightarrow> ext" where
  "eadd_rat (Fin a) r = Fin (a + r)"
| "eadd_rat PInf r = PInf"

text \<open>\<open>(xc._prec * ratio).ceil()\<close>, computed when \<open>xc._prec\<close> is not \<open>Infinity\<close>.\<close>

fun scale_prec :: "ext \<Rightarrow> rat \<Rightarrow> ext" where
  "scale_prec (Fin a) ratio = Fin (of_int \<lceil>a * ratio\<rceil>)"
| "scale_prec PInf ratio = PInf"

text \<open>
  The loop \<open>for i in range(parent.ngens())\<close> of the constructor, over the log-radii of the
  target and of the source.
\<close>

fun check_radii :: "rat list \<Rightarrow> rat list \<Rightarrow> rat \<Rightarrow> nat list \<Rightarrow> error + unit" where
  "check_radii lr xlr ratio [] = Inr ()"
| "check_radii lr xlr ratio (i # rest) =
     (if i < length lr \<and> i < length xlr
      then (if lr ! i > xlr ! i * ratio then Inl ValueError_bigger_domain
            else check_radii lr xlr ratio rest)
      else Inl IndexError)"

text \<open>
  \<open>ratio = parent._base.absolute_e() / xparent.base_ring().absolute_e()\<close>, a quotient of
  ramification indices.
\<close>

definition ramification_ratio :: "('c, 'k) parent \<Rightarrow> ('c, 'k) parent \<Rightarrow> error + rat" where
  "ramification_ratio P xparent =
     (if absolute_e (base xparent) = 0 then Inl ZeroDivisionError
      else Inr (absolute_e (base P) / absolute_e (base xparent)))"

text \<open>
  The reduction of the constructor,
  \<open>self._poly.map_coefficients(lambda c: c.add_bigoh(self._prec))\<close>: \<open>add_bigoh\<close> is
  called on every coefficient, and raises on a precision that is not integral.
\<close>

definition reduce_coefficients :: "'c base_ring \<Rightarrow> ext \<Rightarrow> 'c mpoly \<Rightarrow> error + 'c mpoly" where
  "reduce_coefficients R prec p =
     (if poly_is_zero R p \<or> is_integral_prec prec
      then Inr (map_coefficients R (\<lambda>c. c_add_bigoh R c prec) p)
      else Inl TypeError_precision)"

text \<open>
  \<open>TateAlgebraElement.__init__\<close>. A term whose variable names differ leaves \<open>_poly\<close>
  unassigned, and the reduction that follows raises on \<open>None\<close>; no caller builds a
  series from a term without the reduction, and the model gives the same error there.
  The conversion \<open>S(xc._poly)\<close> between the polynomial rings of two algebras with the
  same variables keeps the exponents and the coefficients.
\<close>

definition element_init ::
  "('c, 'k) parent \<Rightarrow> ('c, 'k) init_arg \<Rightarrow> ext option \<Rightarrow> bool \<Rightarrow> error + 'c tate_element" where
  "element_init P x prec reduce =
     ebind
       (case x of
          From_element xparent xc \<Rightarrow>
            if ident xparent = ident P then Inr (elt_poly xc, elt_prec xc)
            else if variable_names xparent = variable_names P then
              ebind (ramification_ratio P xparent) (\<lambda>ratio.
              ebind (check_radii (log_radii P) (log_radii xparent) ratio [0..<ngens P]) (\<lambda>_.
                Inr (elt_poly xc, scale_prec (elt_prec xc) ratio)))
            else Inl TypeError_variable_names
        | From_term xparent t \<Rightarrow>
            if variable_names xparent = variable_names P then
              ebind (ramification_ratio P xparent) (\<lambda>ratio.
              ebind (check_radii (log_radii P) (log_radii xparent) ratio [0..<ngens P]) (\<lambda>_.
                Inr (poly_monomial (base P) (coefficient t) (exponent t), PInf)))
            else Inl AttributeError_None
        | From_poly p \<Rightarrow> Inr (poly_normalize (base P) p, PInf)
        | From_coeff c \<Rightarrow> Inr (poly_const P c, PInf)
        | From_int n \<Rightarrow> Inr (poly_const P (c_of_int (base P) n), PInf))
       (\<lambda>(p, prec0).
          let prec1 = (case prec of None \<Rightarrow> prec0 | Some n \<Rightarrow> min prec0 n)
          in if reduce
             then ebind (reduce_coefficients (base P) prec1 p)
                    (\<lambda>p'. Inr \<lparr>elt_poly = p', elt_prec = prec1\<rparr>)
             else Inr \<lparr>elt_poly = p, elt_prec = prec1\<rparr>)"

definition polynomial :: "'c tate_element \<Rightarrow> 'c mpoly" where
  "polynomial f = elt_poly f"

definition precision_absolute :: "'c tate_element \<Rightarrow> ext" where
  "precision_absolute f = elt_prec f"

text \<open>\<open>is_zero()\<close> with no precision given: \<open>self._poly == 0\<close>.\<close>

definition is_zero :: "('c, 'k) parent \<Rightarrow> 'c tate_element \<Rightarrow> bool" where
  "is_zero P f = poly_is_zero (base P) (elt_poly f)"

definition dict :: "('c, 'k) parent \<Rightarrow> 'c tate_element \<Rightarrow> 'c mpoly" where
  "dict P f = poly_normalize (base P) (elt_poly f)"

definition add_bigoh :: "('c, 'k) parent \<Rightarrow> 'c tate_element \<Rightarrow> ext \<Rightarrow> error + 'c tate_element" where
  "add_bigoh P f n = element_init P (From_element P f) (Some n) True"

text \<open>
  \<open>terms()\<close>: the terms of the dictionary, sorted with \<open>sort(reverse=True)\<close>, which is
  stable: terms that compare equal keep their order.
\<close>

fun terms_of_dict :: "('c, 'k) parent \<Rightarrow> 'c mpoly \<Rightarrow> error + 'c tate_term list" where
  "terms_of_dict P [] = Inr []"
| "terms_of_dict P ((e, c) # d) =
     ebind (term_init P c e) (\<lambda>t. ebind (terms_of_dict P d) (\<lambda>ts. Inr (t # ts)))"

fun insert_desc :: "('c, 'k::linorder) parent \<Rightarrow> 'c tate_term \<Rightarrow> 'c tate_term list \<Rightarrow> 'c tate_term list" where
  "insert_desc P t [] = [t]"
| "insert_desc P t (u # us) =
     (if term_cmp P t u \<ge> 0 then t # u # us else u # insert_desc P t us)"

definition sort_reverse :: "('c, 'k::linorder) parent \<Rightarrow> 'c tate_term list \<Rightarrow> 'c tate_term list" where
  "sort_reverse P ts = foldr (insert_desc P) ts []"

definition terms :: "('c, 'k::linorder) parent \<Rightarrow> 'c tate_element \<Rightarrow> error + 'c tate_term list" where
  "terms P f =
     (if is_zero P f then Inr []
      else ebind (terms_of_dict P (dict P f)) (\<lambda>ts. Inr (sort_reverse P ts)))"

definition leading_term :: "('c, 'k::linorder) parent \<Rightarrow> 'c tate_element \<Rightarrow> error + 'c tate_term option" where
  "leading_term P f =
     (if is_zero P f then Inr None
      else ebind (terms P f) (\<lambda>ts. case ts of [] \<Rightarrow> Inl IndexError | t # _ \<Rightarrow> Inr (Some t)))"

text \<open>
  \<open>valuation()\<close> of a series: \<open>min(self.leading_term().valuation(), cap)\<close>, or the cap for
  zero: a rational in both cases, the cap being finite.
\<close>

fun min_cap :: "ext \<Rightarrow> rat \<Rightarrow> rat" where
  "min_cap (Fin v) cap = min v cap"
| "min_cap PInf cap = cap"

definition valuation :: "('c, 'k::linorder) parent \<Rightarrow> 'c tate_element \<Rightarrow> error + rat" where
  "valuation P f =
     (let cap = of_int (precision_cap P)
      in if is_zero P f then Inr cap
         else ebind (leading_term P f)
                (\<lambda>lt. case lt of
                         None \<Rightarrow> Inl AttributeError_None
                       | Some t \<Rightarrow> Inr (min_cap (term_valuation P t) cap)))"

subsection \<open>Ring operations\<close>

definition add :: "('c, 'k) parent \<Rightarrow> 'c tate_element \<Rightarrow> 'c tate_element \<Rightarrow> error + 'c tate_element" where
  "add P a b =
     element_init P (From_poly (poly_add (base P) (elt_poly a) (polynomial b)))
       (Some (min (elt_prec a) (precision_absolute b))) True"

definition neg :: "('c, 'k) parent \<Rightarrow> 'c tate_element \<Rightarrow> error + 'c tate_element" where
  "neg P a = element_init P (From_poly (poly_neg (base P) (elt_poly a))) (Some (elt_prec a)) False"

definition sub :: "('c, 'k) parent \<Rightarrow> 'c tate_element \<Rightarrow> 'c tate_element \<Rightarrow> error + 'c tate_element" where
  "sub P a b =
     element_init P (From_poly (poly_sub (base P) (elt_poly a) (polynomial b)))
       (Some (min (elt_prec a) (precision_absolute b))) True"

definition mul :: "('c, 'k::linorder) parent \<Rightarrow> 'c tate_element \<Rightarrow> 'c tate_element \<Rightarrow> error + 'c tate_element" where
  "mul P a b =
     ebind (valuation P b) (\<lambda>vb.
     ebind (valuation P a) (\<lambda>va.
       let prec = min (eadd_rat (elt_prec a) vb) (eadd_rat (precision_absolute b) va)
       in element_init P (From_poly (poly_mul (base P) (elt_poly a) (polynomial b))) (Some prec) True))"

text \<open>
  \<open>_lmul_\<close>: the product with an element of the base ring,
  \<open>other = self._parent._base(right)\<close>.
\<close>

definition lmul :: "('c, 'k) parent \<Rightarrow> 'c tate_element \<Rightarrow> 'c \<Rightarrow> error + 'c tate_element" where
  "lmul P a right =
     ebind (to_base (base P) right) (\<lambda>other.
       let prec = eadd (elt_prec a) (c_valuation (base P) other)
       in element_init P (From_poly (poly_scale (base P) (elt_poly a) other)) (Some prec) True)"

text \<open>A list comprehension, or a loop that collects, whose body may raise.\<close>

fun mapE :: "('a \<Rightarrow> error + 'b) \<Rightarrow> 'a list \<Rightarrow> error + 'b list" where
  "mapE g [] = Inr []"
| "mapE g (x # xs) = ebind (g x) (\<lambda>y. ebind (mapE g xs) (\<lambda>ys. Inr (y # ys)))"

text \<open>
  \<open>_lshift\<close>, \<open>__lshift__\<close> and \<open>__rshift__\<close>. Over a ring that is not a field every
  coefficient is converted first: \<open>field(base(c) >> (minval-n)) << minval\<close>.
\<close>

definition lshift :: "('c, 'k) parent \<Rightarrow> 'c tate_element \<Rightarrow> int \<Rightarrow> error + 'c tate_element" where
  "lshift P f n =
     (if is_field (base P)
      then (let poly = map_coefficients (base P) (\<lambda>c. c_lshift (base P) c n) (elt_poly f)
            in element_init P (From_poly poly) (Some (eadd_rat (elt_prec f) (of_int n))) False)
      else ebind
             (mapE (\<lambda>(exp, c).
                      let minval = \<lceil>\<Sum>i\<leftarrow>[0..<ngens P]. of_nat (exp ! i) * (log_radii P ! i)\<rceil>
                      in ebind (to_base (base P) c)
                           (\<lambda>b. Inr (exp, c_lshift (base P) (c_rshift (base P) b (minval - n)) minval)))
                (poly_normalize (base P) (elt_poly f)))
             (\<lambda>coeffs.
                element_init P (From_poly coeffs) (Some (eadd_rat (elt_prec f) (of_int n))) False))"

definition lshift_op :: "('c, 'k) parent \<Rightarrow> 'c tate_element \<Rightarrow> int \<Rightarrow> error + 'c tate_element" where
  "lshift_op P f n = lshift P f n"

definition rshift_op :: "('c, 'k) parent \<Rightarrow> 'c tate_element \<Rightarrow> int \<Rightarrow> error + 'c tate_element" where
  "rshift_op P f n = lshift P f (- n)"

subsection \<open>Units and inversion\<close>

text \<open>
  Modelled from the spec: the accessor of the base ring, \<open>Element.base_ring\<close>, which
  the element classes of the library define and the series inherit. Its only parameter
  is \<open>self\<close>: the source calls it with no argument and uses the ring that it returns
  (\<open>base = self.base_ring()\<close> in \<open>is_unit\<close>, \<open>self.base_ring().residue_ring(n)\<close>), and
  a call with an argument raises.
\<close>

definition base_ring_method :: "('c, 'k) parent \<Rightarrow> int list \<Rightarrow> error + 'c base_ring" where
  "base_ring_method P args = (if args = [] then Inr (base P) else Inl TypeError_arguments)"

text \<open>Python's \<open>max\<close> of a sequence, which raises on an empty one.\<close>

fun py_max :: "nat list \<Rightarrow> error + nat" where
  "py_max [] = Inl ValueError_max_empty"
| "py_max (x # xs) = Inr (fold max xs x)"

definition is_unit :: "('c, 'k::linorder) parent \<Rightarrow> 'c tate_element \<Rightarrow> error + bool" where
  "is_unit P f =
     (if is_zero P f then Inr False
      else ebind (leading_term P f)
             (\<lambda>lt. case lt of
                      None \<Rightarrow> Inl AttributeError_None
                    | Some t \<Rightarrow>
                        ebind (py_max (exponent t))
                          (\<lambda>m. if m \<noteq> 0 then Inr False
                               else ebind (base_ring_method P [])
                                      (\<lambda>base. if \<not> is_field base \<and> term_valuation P t > Fin 0
                                              then Inr False
                                              else Inr True))))"

text \<open>One round of the iteration: \<open>inv = 2*inv - self*inv*inv\<close>.\<close>

definition newton_step :: "('c, 'k::linorder) parent \<Rightarrow> 'c tate_element \<Rightarrow> 'c tate_element \<Rightarrow> error + 'c tate_element" where
  "newton_step P self inv0 =
     ebind (lmul P inv0 (c_of_int (base P) 2)) (\<lambda>a.
     ebind (mul P self inv0) (\<lambda>b.
     ebind (mul P b inv0) (\<lambda>c.
       sub P a c)))"

text \<open>
  The loop \<open>while prec < cap: prec *= 2; inv = ...\<close>. \<open>None\<close> is a loop that does not
  end.
\<close>

partial_function (option) newton_loop ::
  "('c, 'k::linorder) parent \<Rightarrow> 'c tate_element \<Rightarrow> int \<Rightarrow> int \<Rightarrow> 'c tate_element \<Rightarrow> (error + 'c tate_element) option" where
  "newton_loop P self cap prec inv0 =
     (if prec < cap
      then (case newton_step P self inv0 of
              Inl err \<Rightarrow> Some (Inl err)
            | Inr inv' \<Rightarrow> newton_loop P self cap (prec * 2) inv')
      else Some (Inr inv0))"

declare newton_loop.simps [code]

definition inverse_of_unit :: "('c, 'k::linorder) parent \<Rightarrow> 'c tate_element \<Rightarrow> (error + 'c tate_element) option" where
  "inverse_of_unit P self =
     (case is_unit P self of
        Inl err \<Rightarrow> Some (Inl err)
      | Inr False \<Rightarrow> Some (Inl ValueError_not_invertible)
      | Inr True \<Rightarrow>
          (case leading_term P self of
             Inl err \<Rightarrow> Some (Inl err)
           | Inr None \<Rightarrow> Some (Inl AttributeError_None)
           | Inr (Some t) \<Rightarrow>
               (let c = coefficient t;
                    (v, c) = val_unit (base P) c;
                    cap = precision_cap P
                in case ebind (element_init P (From_coeff (c_inverse_of_unit (base P) c))
                                 (Some (Fin (of_int cap))) True)
                          (\<lambda>inv0. ebind (add_bigoh P self (Fin (of_int cap))) (\<lambda>x. Inr inv0)) of
                     Inl err \<Rightarrow> Some (Inl err)
                   | Inr inv0 \<Rightarrow>
                       (case newton_loop P self cap 1 inv0 of
                          None \<Rightarrow> None
                        | Some (Inl err) \<Rightarrow> Some (Inl err)
                        | Some (Inr inv') \<Rightarrow> Some (lshift_op P inv' v)))))"

subsection \<open>Leading coefficient\<close>

text \<open>
  \<open>leading_coefficient\<close>: on zero it evaluates \<open>self.base_ring(0)\<close>, a call of the
  accessor with the argument \<open>0\<close>, where the zero of the ring would be
  \<open>self.base_ring()(0)\<close>.
\<close>

definition leading_coefficient :: "('c, 'k::linorder) parent \<Rightarrow> 'c tate_element \<Rightarrow> error + 'c" where
  "leading_coefficient P f =
     (if is_zero P f
      then ebind (base_ring_method P [0]) (\<lambda>R. Inr (c_zero R))
      else ebind (leading_term P f)
             (\<lambda>lt. case lt of
                      None \<Rightarrow> Inl AttributeError_None
                    | Some t \<Rightarrow> Inr (coefficient t)))"

subsection \<open>Division with remainder\<close>

definition nth_err :: "'a list \<Rightarrow> nat \<Rightarrow> error + 'a" where
  "nth_err xs i = (if i < length xs then Inr (xs ! i) else Inl IndexError)"

text \<open>
  A term that meets a series in an arithmetic operation is first made a series of the
  algebra, by the constructor.
\<close>

definition element_of_term :: "('c, 'k) parent \<Rightarrow> 'c tate_term \<Rightarrow> error + 'c tate_element" where
  "element_of_term P t = element_init P (From_term P t) None True"

text \<open>
  The scan \<open>for i in range(len(divisors))\<close>: the first divisor whose leading term
  divides \<open>lt\<close>, or \<open>None\<close> for the \<open>else\<close> branch of the loop.
\<close>

fun find_divisor ::
  "('c, 'k) parent \<Rightarrow> 'c tate_term \<Rightarrow> 'c tate_term option list \<Rightarrow> bool \<Rightarrow> nat \<Rightarrow> error + nat option" where
  "find_divisor P lt [] integral i = Inr None"
| "find_divisor P lt (ltd # rest) integral i =
     ebind (term_is_divisible_by P lt ltd integral)
       (\<lambda>b. if b then Inr (Some i) else find_divisor P lt rest integral (Suc i))"

text \<open>The body of \<open>while not f.is_zero()\<close>.\<close>

definition quo_rem_step ::
  "('c, 'k::linorder) parent \<Rightarrow> 'c tate_element list \<Rightarrow> 'c tate_term option list \<Rightarrow> bool \<Rightarrow>
   'c tate_element \<Rightarrow> 'c tate_element list \<Rightarrow> 'c tate_element \<Rightarrow>
   error + ('c tate_element \<times> 'c tate_element list \<times> 'c tate_element)" where
  "quo_rem_step P divisors ltds integral f q r =
     ebind (leading_term P f) (\<lambda>lt0.
       case lt0 of
         None \<Rightarrow> Inl TypeError_None
       | Some lt \<Rightarrow>
           ebind (find_divisor P lt ltds integral 0) (\<lambda>found.
             case found of
               Some i \<Rightarrow>
                 ebind (nth_err ltds i) (\<lambda>ltd0.
                   case ltd0 of
                     None \<Rightarrow> Inl TypeError_None
                   | Some ltd \<Rightarrow>
                       ebind (term_floordiv P lt ltd) (\<lambda>factor.
                       ebind (element_of_term P factor) (\<lambda>factor_elt.
                       ebind (nth_err divisors i) (\<lambda>d.
                       ebind (mul P factor_elt d) (\<lambda>fd.
                       ebind (sub P f fd) (\<lambda>f'.
                       ebind (nth_err q i) (\<lambda>qi.
                       ebind (add P qi factor_elt) (\<lambda>qi'.
                         Inr (f', q[i := qi'], r)))))))))
             | None \<Rightarrow>
                 ebind (element_of_term P lt) (\<lambda>lt_elt.
                 ebind (sub P f lt_elt) (\<lambda>f'.
                 ebind (add P r lt_elt) (\<lambda>r'.
                   Inr (f', q, r'))))))"

partial_function (option) quo_rem_loop ::
  "('c, 'k::linorder) parent \<Rightarrow> 'c tate_element list \<Rightarrow> 'c tate_term option list \<Rightarrow> bool \<Rightarrow>
   'c tate_element \<Rightarrow> 'c tate_element list \<Rightarrow> 'c tate_element \<Rightarrow>
   (error + ('c tate_element list \<times> 'c tate_element)) option" where
  "quo_rem_loop P divisors ltds integral f q r =
     (if is_zero P f then Some (Inr (q, r))
      else (case quo_rem_step P divisors ltds integral f q r of
              Inl err \<Rightarrow> Some (Inl err)
            | Inr (f', q', r') \<Rightarrow> quo_rem_loop P divisors ltds integral f' q' r'))"

declare quo_rem_loop.simps [code]

text \<open>\<open>quo_rem\<close>, for a list of divisors.\<close>

definition quo_rem ::
  "('c, 'k::linorder) parent \<Rightarrow> 'c tate_element \<Rightarrow> 'c tate_element list \<Rightarrow> bool \<Rightarrow>
   (error + ('c tate_element list \<times> 'c tate_element)) option" where
  "quo_rem P self divisors integral =
     (case ebind (mapE (leading_term P) divisors) (\<lambda>ltds.
             let cap = precision_cap P in
             ebind (add_bigoh P self (Fin (of_int cap))) (\<lambda>f.
             ebind (mapE (\<lambda>d. ebind (valuation P d) (\<lambda>v.
                            element_init P (From_int 0) (Some (Fin (of_int cap - v))) True))
                      divisors) (\<lambda>q.
             ebind (element_init P (From_int 0) (Some (Fin (of_int cap))) True) (\<lambda>r.
               Inr (ltds, f, q, r))))) of
        Inl err \<Rightarrow> Some (Inl err)
      | Inr (ltds, f, q, r) \<Rightarrow> quo_rem_loop P divisors ltds integral f q r)"

text \<open>\<open>__mod__\<close>: \<open>_, r = self.quo_rem(divisors); return r\<close>.\<close>

definition mod_op ::
  "('c, 'k::linorder) parent \<Rightarrow> 'c tate_element \<Rightarrow> 'c tate_element list \<Rightarrow> (error + 'c tate_element) option" where
  "mod_op P self divisors =
     (case quo_rem P self divisors False of
        None \<Rightarrow> None
      | Some (Inl err) \<Rightarrow> Some (Inl err)
      | Some (Inr (_, r)) \<Rightarrow> Some (Inr r))"

text \<open>
  \<open>reduce\<close>: \<open>g = I.groebner_basis(); return self.quo_rem(g)\<close>. The Groebner basis of the
  ideal is computed outside the engine and is a parameter.
\<close>

definition reduce ::
  "('c, 'k::linorder) parent \<Rightarrow> ('i \<Rightarrow> 'c tate_element list) \<Rightarrow> 'c tate_element \<Rightarrow> 'i \<Rightarrow>
   (error + ('c tate_element list \<times> 'c tate_element)) option" where
  "reduce P groebner_basis self I = (let g = groebner_basis I in quo_rem P self g False)"

section \<open>A base ring to compute with\<close>

text \<open>
  Modelled from the spec: a base ring, which the engine takes from the library. The
  2-adic numbers that are rational, known exactly: \<open>val2\<close> is the 2-adic valuation,
  the uniformizer is 2, and \<open>add_bigoh n\<close> takes a coefficient of valuation at least
  \<open>n\<close> to zero and keeps the others. With \<open>field = False\<close> it stands for the ring of
  2-adic integers, whose right shift truncates.
\<close>

function val2_int :: "int \<Rightarrow> nat" where
  "val2_int n = (if n = 0 \<or> odd n then 0 else Suc (val2_int (n div 2)))"
  by pat_completeness auto
termination
  by (relation "measure (\<lambda>n. nat \<bar>n\<bar>)") auto

definition val2 :: "rat \<Rightarrow> ext" where
  "val2 c =
     (if c = 0 then PInf
      else (case quotient_of c of (a, b) \<Rightarrow> Fin (of_int (int (val2_int a) - int (val2_int b)))))"

definition pow2 :: "int \<Rightarrow> rat" where
  "pow2 n = (if 0 \<le> n then 2 ^ nat n else 1 / 2 ^ nat (- n))"

definition residue2 :: "rat \<Rightarrow> int \<Rightarrow> rat" where
  "residue2 c m =
     (case find (\<lambda>r. Fin (of_int m) \<le> val2 (c - of_nat r)) [0..<2 ^ nat m] of
        Some r \<Rightarrow> of_nat r
      | None \<Rightarrow> 0)"

definition two_adic :: "bool \<Rightarrow> rat base_ring" where
  "two_adic field =
     \<lparr>is_field = field,
      absolute_e = 1,
      c_zero = 0,
      c_of_int = of_int,
      c_add = (+),
      c_neg = uminus,
      c_mul = (*),
      c_div = (/),
      c_valuation = val2,
      uniformizer_pow = (\<lambda>n. case n of Fin v \<Rightarrow> pow2 \<lfloor>v\<rfloor> | PInf \<Rightarrow> 0),
      val_unit = (\<lambda>c. case val2 c of Fin v \<Rightarrow> (\<lfloor>v\<rfloor>, c / pow2 \<lfloor>v\<rfloor>) | PInf \<Rightarrow> (0, 0)),
      c_inverse_of_unit = inverse,
      c_add_bigoh = (\<lambda>c n. if n \<le> val2 c then 0 else c),
      c_lshift = (\<lambda>c n. c * pow2 n),
      c_rshift = (\<lambda>c n. if field \<or> n \<le> 0 then c / pow2 n else (c - residue2 c n) / pow2 n)\<rparr>"

text \<open>
  Modelled from the spec: a term order, which the algebra takes from the library. The
  degree reverse lexicographic order, with the sort key of the library:
  \<open>(sum(f.nonzero_values(sort=False)), f.reversed().emul(-1))\<close>, compared as tuples.
\<close>

definition sortkey_degrevlex :: "nat list \<Rightarrow> nat \<times> int list" where
  "sortkey_degrevlex e = (sum_list e, map (\<lambda>x. - int x) (rev e))"

text \<open>An algebra over the 2-adic base ring, with this term order.\<close>

definition tate_algebra ::
  "nat \<Rightarrow> bool \<Rightarrow> string list \<Rightarrow> rat list \<Rightarrow> int \<Rightarrow> (rat, nat \<times> int list) parent" where
  "tate_algebra i field names radii cap =
     \<lparr>ident = i, base = two_adic field, variable_names = names, log_radii = radii,
      precision_cap = cap, sortkey = sortkey_degrevlex\<rparr>"

text \<open>
  The algebras of the examples: in \<open>x\<close> over the 2-adic integers and over the 2-adic
  numbers with precision cap 10, as in the doctests of the source; the restriction to
  the log-radius \<open>-1\<close>, the extension to the log-radius \<open>1\<close>, and an algebra in \<open>x\<close> and \<open>y\<close>.
\<close>

definition A_Zp :: "(rat, nat \<times> int list) parent" where
  "A_Zp = tate_algebra 0 False [''x''] [0] 10"

definition A_Qp :: "(rat, nat \<times> int list) parent" where
  "A_Qp = tate_algebra 1 True [''x''] [0] 10"

definition A_Zp_small :: "(rat, nat \<times> int list) parent" where
  "A_Zp_small = tate_algebra 2 False [''x''] [- 1] 10"

definition A_Zp_big :: "(rat, nat \<times> int list) parent" where
  "A_Zp_big = tate_algebra 3 False [''x''] [1] 10"

definition A_Zp_xy :: "(rat, nat \<times> int list) parent" where
  "A_Zp_xy = tate_algebra 4 False [''x'', ''y''] [0, 0] 10"

text \<open>The algebra in \<open>x\<close> over the 2-adic integers with the log-radius \<open>-1/2\<close>.\<close>

definition A_Zp_half :: "(rat, nat \<times> int list) parent" where
  "A_Zp_half = tate_algebra 5 False [''x''] [- 1 / 2] 10"

text \<open>An exact series with the given polynomial.\<close>

definition series :: "rat mpoly \<Rightarrow> rat tate_element" where
  "series p = \<lparr>elt_poly = p, elt_prec = PInf\<rparr>"

section \<open>Well-formed series\<close>

text \<open>
  The exponents of a polynomial of the algebra have one entry per variable: the
  invariant of the polynomial ring that makes the length check of \<open>term_init\<close> pass.
\<close>

definition well_formed :: "('c, 'k) parent \<Rightarrow> 'c tate_element \<Rightarrow> bool" where
  "well_formed P f = list_all (\<lambda>(e, c). length e = ngens P) (elt_poly f)"

text \<open>
  The series \<open>1 - x\<close>, and the series \<open>x^k + O(2^10)\<close> that the division of 1 by
  \<open>1 - x\<close> runs through.
\<close>

definition geom_divisor :: "rat tate_element" where
  "geom_divisor = series [([0], 1), ([1], - 1)]"

definition monomial_x :: "nat \<Rightarrow> rat tate_element" where
  "monomial_x k = \<lparr>elt_poly = [([k], 1)], elt_prec = Fin 10\<rparr>"

section \<open>Basic facts\<close>

lemma ebind_Inr [simp]: "ebind (Inr x) f = f x"
  by (simp add: ebind_def)

lemma ebind_Inl [simp]: "ebind (Inl err) f = Inl err"
  by (simp add: ebind_def)

lemma le_PInf [simp]: "n \<le> PInf"
  by (cases n) simp_all

lemma min_PInf [simp]: "min PInf n = n" "min n PInf = n"
  by (simp_all add: min_def antisym)

lemma element_init_poly:
  "element_init P (From_poly p) (Some n) rd =
     (if rd
      then ebind (reduce_coefficients (base P) n (poly_normalize (base P) p))
             (\<lambda>p'. Inr \<lparr>elt_poly = p', elt_prec = n\<rparr>)
      else Inr \<lparr>elt_poly = poly_normalize (base P) p, elt_prec = n\<rparr>)"
  by (simp add: element_init_def)

lemma reduce_coefficients_integral:
  "is_integral_prec n \<Longrightarrow>
   reduce_coefficients R n p = Inr (map_coefficients R (\<lambda>c. c_add_bigoh R c n) p)"
  by (simp add: reduce_coefficients_def)

text \<open>The reduction fails in one way only, on a precision that is not integral.\<close>

lemma reduce_coefficients_cases:
  "(\<exists>p'. reduce_coefficients R n p = Inr p') \<or>
   (reduce_coefficients R n p = Inl TypeError_precision \<and> \<not> is_integral_prec n)"
  by (simp add: reduce_coefficients_def)

lemma is_integral_prec_of_int [simp]: "is_integral_prec (Fin (of_int k))"
  by simp

lemma is_integral_prec_scale [simp]: "is_integral_prec (scale_prec a ratio)"
  by (cases a) simp_all

lemma is_integral_prec_min:
  "is_integral_prec a \<Longrightarrow> is_integral_prec b \<Longrightarrow> is_integral_prec (min a b)"
  by (simp add: min_def)

lemma terms_of_dict_ok:
  "list_all (\<lambda>(e, c). length e = ngens P) d \<Longrightarrow>
   terms_of_dict P d = Inr (map (\<lambda>(e, c). \<lparr>term_coeff = c, term_exponent = e\<rparr>) d)"
  by (induction d) (auto simp: term_init_def)

lemma set_insert_desc [simp]: "set (insert_desc P t us) = insert t (set us)"
  by (induction us) auto

lemma set_sort_reverse [simp]: "set (sort_reverse P ts) = set ts"
  by (induction ts) (auto simp: sort_reverse_def)

lemma well_formed_dict:
  "well_formed P f \<Longrightarrow> list_all (\<lambda>(e, c). length e = ngens P) (dict P f)"
  by (simp add: well_formed_def dict_def poly_normalize_def list_all_iff)

text \<open>A series that is not zero has a leading term, with an exponent of the right length.\<close>

lemma leading_term_ok:
  assumes "well_formed P f" and "\<not> is_zero P f"
  shows "\<exists>t. leading_term P f = Inr (Some t) \<and> length (exponent t) = ngens P"
proof -
  let ?ts = "map (\<lambda>(e, c). \<lparr>term_coeff = c, term_exponent = e\<rparr>) (dict P f)"
  have d: "terms_of_dict P (dict P f) = Inr ?ts"
    by (rule terms_of_dict_ok [OF well_formed_dict [OF assms(1)]])
  have ne: "dict P f \<noteq> []"
    using assms(2) by (simp add: is_zero_def poly_is_zero_def dict_def)
  have "set (sort_reverse P ?ts) = set ?ts"
    by simp
  with ne have "sort_reverse P ?ts \<noteq> []"
    by (metis map_is_Nil_conv set_empty)
  then obtain t rest where s: "sort_reverse P ?ts = t # rest"
    by (cases "sort_reverse P ?ts") auto
  then have "t \<in> set ?ts"
    by (metis list.set_intros(1) set_sort_reverse)
  then have "length (exponent t) = ngens P"
    using well_formed_dict [OF assms(1)] by (auto simp: list_all_iff exponent_def)
  moreover have "leading_term P f = Inr (Some t)"
    using assms(2) d s by (simp add: leading_term_def terms_def)
  ultimately show ?thesis by blast
qed

lemma valuation_ok:
  assumes "well_formed P f"
  shows "\<exists>v. valuation P f = Inr v"
proof (cases "is_zero P f")
  case True
  then show ?thesis by (simp add: valuation_def)
next
  case False
  from leading_term_ok [OF assms False] obtain t where "leading_term P f = Inr (Some t)"
    by blast
  with False show ?thesis by (simp add: valuation_def)
qed

section \<open>The doctests of the source\<close>

text \<open>
  The examples of the docstrings, on the algebras over the 2-adic integers: the sorted
  terms of \<open>x + 2*x^2 + x^3\<close> and of \<open>1 + 2*x + 3*x*y^2\<close>; the sum of
  \<open>x + 2*x^2 + x^3\<close> and \<open>x + 2*y^2 + O(2^5)\<close>, with its precision; the product with the
  scalar 6; the truncations of \<open>(x + 2*x^2) << 5\<close>.
\<close>

lemma doctests:
  "terms A_Zp (series [([1], 1), ([2], 2), ([3], 1)]) =
     Inr [\<lparr>term_coeff = 1, term_exponent = [3]\<rparr>, \<lparr>term_coeff = 1, term_exponent = [1]\<rparr>,
          \<lparr>term_coeff = 2, term_exponent = [2]\<rparr>]"
  "terms A_Zp_xy (series [([0, 0], 1), ([1, 0], 2), ([1, 2], 3)]) =
     Inr [\<lparr>term_coeff = 3, term_exponent = [1, 2]\<rparr>, \<lparr>term_coeff = 1, term_exponent = [0, 0]\<rparr>,
          \<lparr>term_coeff = 2, term_exponent = [1, 0]\<rparr>]"
  "ebind (add A_Zp_xy (series [([1, 0], 1), ([2, 0], 2), ([3, 0], 1)])
            \<lparr>elt_poly = [([1, 0], 1), ([0, 2], 2)], elt_prec = Fin 5\<rparr>)
     (\<lambda>h. ebind (terms A_Zp_xy h) (\<lambda>ts. Inr (ts, precision_absolute h))) =
     Inr ([\<lparr>term_coeff = 1, term_exponent = [3, 0]\<rparr>, \<lparr>term_coeff = 2, term_exponent = [2, 0]\<rparr>,
           \<lparr>term_coeff = 2, term_exponent = [0, 2]\<rparr>, \<lparr>term_coeff = 2, term_exponent = [1, 0]\<rparr>],
          Fin 5)"
  "ebind (lmul A_Zp (series [([1], 1), ([2], 2), ([3], 1)]) 6) (terms A_Zp) =
     Inr [\<lparr>term_coeff = 6, term_exponent = [3]\<rparr>, \<lparr>term_coeff = 6, term_exponent = [1]\<rparr>,
          \<lparr>term_coeff = 12, term_exponent = [2]\<rparr>]"
  "add_bigoh A_Zp (series [([1], 32), ([2], 64)]) (Fin 5) = Inr \<lparr>elt_poly = [], elt_prec = Fin 5\<rparr>"
  "add_bigoh A_Zp (series [([1], 32), ([2], 64)]) (Fin 6) =
     Inr \<lparr>elt_poly = [([1], 32)], elt_prec = Fin 6\<rparr>"
  by code_simp+

section \<open>The precision of a product\<close>

text \<open>
  Claim C1. For series \<open>a\<close> and \<open>b\<close> of one algebra, the product that \<open>_mul_\<close> returns
  has as its absolute precision the minimum of \<open>prec(a) + valuation(b)\<close> and
  \<open>prec(b) + valuation(a)\<close>, with the valuation of series. The product is returned
  whenever this precision is integral or infinite; \<open>_mul_\<close> fails in one way only, when
  the reduction of the constructor raises on a precision that is not integral.
\<close>

theorem mul_precision_absolute:
  assumes "well_formed P a" and "well_formed P b"
  shows "\<exists>va vb. valuation P a = Inr va \<and> valuation P b = Inr vb \<and>
           (\<forall>c. mul P a b = Inr c \<longrightarrow>
                precision_absolute c =
                  min (eadd_rat (precision_absolute a) vb) (eadd_rat (precision_absolute b) va)) \<and>
           (is_integral_prec
              (min (eadd_rat (precision_absolute a) vb) (eadd_rat (precision_absolute b) va)) \<longrightarrow>
            (\<exists>c. mul P a b = Inr c)) \<and>
           (\<forall>err. mul P a b = Inl err \<longrightarrow>
                err = TypeError_precision \<and>
                \<not> is_integral_prec
                    (min (eadd_rat (precision_absolute a) vb) (eadd_rat (precision_absolute b) va)))"
proof -
  from valuation_ok [OF assms(1)] obtain va where va: "valuation P a = Inr va" ..
  from valuation_ok [OF assms(2)] obtain vb where vb: "valuation P b = Inr vb" ..
  let ?prec = "min (eadd_rat (precision_absolute a) vb) (eadd_rat (precision_absolute b) va)"
  let ?p = "poly_normalize (base P) (poly_mul (base P) (elt_poly a) (polynomial b))"
  have m: "mul P a b =
           ebind (reduce_coefficients (base P) ?prec ?p) (\<lambda>p'. Inr \<lparr>elt_poly = p', elt_prec = ?prec\<rparr>)"
    by (simp add: mul_def va vb element_init_poly precision_absolute_def Let_def)
  from reduce_coefficients_cases [of "base P" ?prec ?p]
  have "(\<forall>c. mul P a b = Inr c \<longrightarrow> precision_absolute c = ?prec) \<and>
        (is_integral_prec ?prec \<longrightarrow> (\<exists>c. mul P a b = Inr c)) \<and>
        (\<forall>err. mul P a b = Inl err \<longrightarrow> err = TypeError_precision \<and> \<not> is_integral_prec ?prec)"
    unfolding m by (auto simp: precision_absolute_def)
  with va vb show ?thesis by blast
qed

text \<open>
  The doctest of \<open>_mul_\<close>: \<open>f = 2*x + 4*x^2 + 2*x^3\<close> is exact and has valuation 1,
  \<open>g = x + 2*x^2 + O(2^5)\<close> has valuation 0, and the product has precision 6.
\<close>

theorem mul_precision_absolute_witness:
  "well_formed A_Zp (series [([1], 2), ([2], 4), ([3], 2)]) \<and>
   well_formed A_Zp \<lparr>elt_poly = [([1], 1), ([2], 2)], elt_prec = Fin 5\<rparr> \<and>
   valuation A_Zp (series [([1], 2), ([2], 4), ([3], 2)]) = Inr 1 \<and>
   valuation A_Zp \<lparr>elt_poly = [([1], 1), ([2], 2)], elt_prec = Fin 5\<rparr> = Inr 0 \<and>
   is_integral_prec (Fin 6) \<and>
   mul A_Zp (series [([1], 2), ([2], 4), ([3], 2)])
       \<lparr>elt_poly = [([1], 1), ([2], 2)], elt_prec = Fin 5\<rparr> =
     Inr \<lparr>elt_poly = [([2], 2), ([3], 8), ([4], 10), ([5], 4)], elt_prec = Fin 6\<rparr>"
proof -
  have wa: "well_formed A_Zp (series [([1], 2), ([2], 4), ([3], 2)])"
    by code_simp
  have wb: "well_formed A_Zp \<lparr>elt_poly = [([1], 1), ([2], 2)], elt_prec = Fin 5\<rparr>"
    by code_simp
  have va: "valuation A_Zp (series [([1], 2), ([2], 4), ([3], 2)]) = Inr 1"
    by code_simp
  have vb: "valuation A_Zp \<lparr>elt_poly = [([1], 1), ([2], 2)], elt_prec = Fin 5\<rparr> = Inr 0"
    by code_simp
  have i: "is_integral_prec (Fin 6)"
    by code_simp
  have m: "mul A_Zp (series [([1], 2), ([2], 4), ([3], 2)])
       \<lparr>elt_poly = [([1], 1), ([2], 2)], elt_prec = Fin 5\<rparr> =
     Inr \<lparr>elt_poly = [([2], 2), ([3], 8), ([4], 10), ([5], 4)], elt_prec = Fin 6\<rparr>"
    by code_simp
  from mul_precision_absolute [OF wa wb] wa wb va vb i m show ?thesis
    by simp
qed

text \<open>
  With the log-radius \<open>-1/2\<close> the series \<open>x\<close> has valuation \<open>1/2\<close>: the product of \<open>x\<close> and
  \<open>x + O(2^5)\<close> would have the precision \<open>11/2\<close>, and the constructor raises.
\<close>

lemma mul_precision_not_integral:
  "valuation A_Zp_half (series [([1], 1)]) = Inr (1 / 2)"
  "mul A_Zp_half (series [([1], 1)]) \<lparr>elt_poly = [([1], 1)], elt_prec = Fin 5\<rparr> =
     Inl TypeError_precision"
  by code_simp+

section \<open>The order of terms\<close>

lemma inj_sortkey_degrevlex: "inj sortkey_degrevlex"
proof (rule injI)
  fix e1 e2
  assume "sortkey_degrevlex e1 = sortkey_degrevlex e2"
  then have "map (\<lambda>x. - int x) (rev e1) = map (\<lambda>x. - int x) (rev e2)"
    by (simp add: sortkey_degrevlex_def)
  moreover have "inj (\<lambda>x. - int x)"
    by (simp add: inj_def)
  ultimately have "rev e1 = rev e2"
    by (simp add: inj_map_eq_map)
  then show "e1 = e2"
    by simp
qed

lemma term_cmp_sym: "term_cmp P t1 t2 = - term_cmp P t2 t1"
  by (auto simp: term_cmp_def cmp_neg_def cmp3_def Let_def exponent_def)

lemma term_cmp_le_iff:
  "term_cmp P t1 t2 \<le> 0 \<longleftrightarrow>
     term_valuation P t2 < term_valuation P t1 \<or>
     (term_valuation P t1 = term_valuation P t2 \<and>
      sortkey P (exponent t1) \<le> sortkey P (exponent t2))"
  by (auto simp: term_cmp_def cmp_neg_def cmp3_def Let_def exponent_def)

lemma term_cmp_less_iff:
  "term_cmp P t1 t2 < 0 \<longleftrightarrow>
     term_valuation P t2 < term_valuation P t1 \<or>
     (term_valuation P t1 = term_valuation P t2 \<and>
      sortkey P (exponent t1) < sortkey P (exponent t2))"
  by (auto simp: term_cmp_def cmp_neg_def cmp3_def Let_def exponent_def)

lemma term_cmp_zero_iff:
  "term_cmp P t1 t2 = 0 \<longleftrightarrow>
     term_valuation P t1 = term_valuation P t2 \<and>
     sortkey P (exponent t1) = sortkey P (exponent t2)"
  by (auto simp: term_cmp_def cmp_neg_def cmp3_def Let_def exponent_def)

text \<open>
  Claim C4, as the source has it. The comparison of terms, by descending valuation and
  then by the sort key of the exponent, is a total preorder: exchanging the operands
  changes the sign of the result, it is transitive, and two terms compare equal exactly
  when they have the same valuation and the same sort key, that is the same exponent
  when the sort key of the term order is injective. The coefficients are compared by
  their valuation only.
\<close>

theorem term_cmp_total_preorder:
  "term_cmp P t1 t2 = - term_cmp P t2 t1 \<and>
   (term_cmp P t1 t2 \<le> 0 \<and> term_cmp P t2 t3 \<le> 0 \<longrightarrow> term_cmp P t1 t3 \<le> 0) \<and>
   (term_cmp P t1 t2 < 0 \<and> term_cmp P t2 t3 < 0 \<longrightarrow> term_cmp P t1 t3 < 0) \<and>
   (term_cmp P t1 t2 = 0 \<longleftrightarrow>
      term_valuation P t1 = term_valuation P t2 \<and>
      sortkey P (exponent t1) = sortkey P (exponent t2)) \<and>
   (inj (sortkey P) \<longrightarrow>
      (term_cmp P t1 t2 = 0 \<longleftrightarrow>
         term_valuation P t1 = term_valuation P t2 \<and> exponent t1 = exponent t2))"
proof (intro conjI impI)
  show "term_cmp P t1 t2 = - term_cmp P t2 t1"
    by (rule term_cmp_sym)
  show "term_cmp P t1 t3 \<le> 0" if "term_cmp P t1 t2 \<le> 0 \<and> term_cmp P t2 t3 \<le> 0"
    using that unfolding term_cmp_le_iff by auto
  show "term_cmp P t1 t3 < 0" if "term_cmp P t1 t2 < 0 \<and> term_cmp P t2 t3 < 0"
    using that unfolding term_cmp_less_iff by auto
  show "term_cmp P t1 t2 = 0 \<longleftrightarrow>
      term_valuation P t1 = term_valuation P t2 \<and>
      sortkey P (exponent t1) = sortkey P (exponent t2)"
    by (rule term_cmp_zero_iff)
  show "term_cmp P t1 t2 = 0 \<longleftrightarrow>
         term_valuation P t1 = term_valuation P t2 \<and> exponent t1 = exponent t2"
    if "inj (sortkey P)"
    using that unfolding term_cmp_zero_iff by (auto dest: injD)
qed

text \<open>
  The terms \<open>2*x^2\<close>, \<open>x\<close> and \<open>x^3\<close> of \<open>x + 2*x^2 + x^3\<close> over the 2-adic integers,
  in ascending order.
\<close>

theorem term_cmp_total_preorder_witness:
  "term_cmp A_Zp \<lparr>term_coeff = 2, term_exponent = [2]\<rparr> \<lparr>term_coeff = 1, term_exponent = [1]\<rparr> < 0 \<and>
   term_cmp A_Zp \<lparr>term_coeff = 1, term_exponent = [1]\<rparr> \<lparr>term_coeff = 1, term_exponent = [3]\<rparr> < 0 \<and>
   inj (sortkey A_Zp) \<and>
   term_cmp A_Zp \<lparr>term_coeff = 2, term_exponent = [2]\<rparr> \<lparr>term_coeff = 1, term_exponent = [3]\<rparr> < 0 \<and>
   term_cmp A_Zp \<lparr>term_coeff = 1, term_exponent = [1]\<rparr> \<lparr>term_coeff = 2, term_exponent = [2]\<rparr> = 1"
proof -
  have h1: "term_cmp A_Zp \<lparr>term_coeff = 2, term_exponent = [2]\<rparr>
              \<lparr>term_coeff = 1, term_exponent = [1]\<rparr> = - 1"
    by code_simp
  have h2: "term_cmp A_Zp \<lparr>term_coeff = 1, term_exponent = [1]\<rparr>
              \<lparr>term_coeff = 1, term_exponent = [3]\<rparr> = - 1"
    by code_simp
  have h3: "inj (sortkey A_Zp)"
    by (simp add: A_Zp_def tate_algebra_def inj_sortkey_degrevlex)
  from term_cmp_total_preorder
         [of A_Zp "\<lparr>term_coeff = 2, term_exponent = [2]\<rparr>" "\<lparr>term_coeff = 1, term_exponent = [1]\<rparr>"
             "\<lparr>term_coeff = 1, term_exponent = [3]\<rparr>"]
       h1 h2 h3
  show ?thesis by simp
qed

text \<open>
  The claim as the spec states it fails: \<open>x\<close> and \<open>3*x\<close> over the 2-adic integers have
  valuation 0 and the same exponent, and compare equal, with different coefficients.
\<close>

theorem term_cmp_equal_counterexample:
  "term_cmp A_Zp \<lparr>term_coeff = 1, term_exponent = [1]\<rparr> \<lparr>term_coeff = 3, term_exponent = [1]\<rparr> = 0 \<and>
   coefficient \<lparr>term_coeff = 1 :: rat, term_exponent = [1]\<rparr> \<noteq>
   coefficient \<lparr>term_coeff = 3 :: rat, term_exponent = [1]\<rparr> \<and>
   \<lparr>term_coeff = 1 :: rat, term_exponent = [1]\<rparr> \<noteq> \<lparr>term_coeff = 3, term_exponent = [1]\<rparr>"
  by code_simp

section \<open>The gcd and the lcm of terms\<close>

text \<open>
  Claim C8, as the source has it. The gcd (the lcm) of two terms of an algebra is the
  term whose exponent is the component-wise minimum (maximum) of the two exponents and
  whose coefficient is the uniformizer raised to the minimum (maximum) of the valuations
  of the two coefficients: the unit parts of the coefficients and the log-radii play no
  part.
\<close>

theorem term_gcd_lcm:
  assumes "length (exponent t1) = ngens P" and "length (exponent t2) = ngens P"
  shows "\<exists>g l. term_gcd P t1 t2 = Inr g \<and> term_lcm P t1 t2 = Inr l \<and>
           coefficient g =
             uniformizer_pow (base P)
               (min (c_valuation (base P) (coefficient t1)) (c_valuation (base P) (coefficient t2))) \<and>
           coefficient l =
             uniformizer_pow (base P)
               (max (c_valuation (base P) (coefficient t1)) (c_valuation (base P) (coefficient t2))) \<and>
           length (exponent g) = ngens P \<and> length (exponent l) = ngens P \<and>
           (\<forall>i<ngens P. exponent g ! i = min (exponent t1 ! i) (exponent t2 ! i) \<and>
                        exponent l ! i = max (exponent t1 ! i) (exponent t2 ! i))"
  using assms
  by (simp add: term_gcd_def term_lcm_def term_init_def emin_def emax_def Let_def
      coefficient_def exponent_def)

text \<open>The terms \<open>4*x^2*y\<close> and \<open>6*x*y^3\<close>: the gcd is \<open>2*x*y\<close>, the lcm is \<open>4*x^2*y^3\<close>.\<close>

theorem term_gcd_lcm_witness:
  "length (exponent \<lparr>term_coeff = 4 :: rat, term_exponent = [2, 1]\<rparr>) = ngens A_Zp_xy \<and>
   length (exponent \<lparr>term_coeff = 6 :: rat, term_exponent = [1, 3]\<rparr>) = ngens A_Zp_xy \<and>
   term_gcd A_Zp_xy \<lparr>term_coeff = 4, term_exponent = [2, 1]\<rparr> \<lparr>term_coeff = 6, term_exponent = [1, 3]\<rparr> =
     Inr \<lparr>term_coeff = 2, term_exponent = [1, 1]\<rparr> \<and>
   term_lcm A_Zp_xy \<lparr>term_coeff = 4, term_exponent = [2, 1]\<rparr> \<lparr>term_coeff = 6, term_exponent = [1, 3]\<rparr> =
     Inr \<lparr>term_coeff = 4, term_exponent = [2, 3]\<rparr>"
proof -
  have h1: "length (exponent \<lparr>term_coeff = 4 :: rat, term_exponent = [2, 1]\<rparr>) = ngens A_Zp_xy"
    by code_simp
  have h2: "length (exponent \<lparr>term_coeff = 6 :: rat, term_exponent = [1, 3]\<rparr>) = ngens A_Zp_xy"
    by code_simp
  have g: "term_gcd A_Zp_xy \<lparr>term_coeff = 4, term_exponent = [2, 1]\<rparr>
             \<lparr>term_coeff = 6, term_exponent = [1, 3]\<rparr> =
           Inr \<lparr>term_coeff = 2, term_exponent = [1, 1]\<rparr>"
    by code_simp
  have l: "term_lcm A_Zp_xy \<lparr>term_coeff = 4, term_exponent = [2, 1]\<rparr>
             \<lparr>term_coeff = 6, term_exponent = [1, 3]\<rparr> =
           Inr \<lparr>term_coeff = 4, term_exponent = [2, 3]\<rparr>"
    by code_simp
  from term_gcd_lcm [OF h1 h2] h1 h2 g l show ?thesis
    by simp
qed

text \<open>
  With the valuations of the terms the claim fails: in the algebra of log-radius \<open>-1\<close>
  the term \<open>x\<close> has valuation 1 and a coefficient of valuation 0. Its gcd and its lcm
  with itself have the coefficient 1, not the uniformizer raised to the valuation of the
  term, which is 2.
\<close>

theorem term_gcd_valuation_counterexample:
  "term_valuation A_Zp_small \<lparr>term_coeff = 1, term_exponent = [1]\<rparr> = Fin 1 \<and>
   c_valuation (base A_Zp_small) (coefficient \<lparr>term_coeff = 1 :: rat, term_exponent = [1]\<rparr>) = Fin 0 \<and>
   term_gcd A_Zp_small \<lparr>term_coeff = 1, term_exponent = [1]\<rparr> \<lparr>term_coeff = 1, term_exponent = [1]\<rparr> =
     Inr \<lparr>term_coeff = 1, term_exponent = [1]\<rparr> \<and>
   term_lcm A_Zp_small \<lparr>term_coeff = 1, term_exponent = [1]\<rparr> \<lparr>term_coeff = 1, term_exponent = [1]\<rparr> =
     Inr \<lparr>term_coeff = 1, term_exponent = [1]\<rparr> \<and>
   uniformizer_pow (base A_Zp_small)
     (min (term_valuation A_Zp_small \<lparr>term_coeff = 1, term_exponent = [1]\<rparr>)
          (term_valuation A_Zp_small \<lparr>term_coeff = 1, term_exponent = [1]\<rparr>)) = 2 \<and>
   uniformizer_pow (base A_Zp_small)
     (max (term_valuation A_Zp_small \<lparr>term_coeff = 1, term_exponent = [1]\<rparr>)
          (term_valuation A_Zp_small \<lparr>term_coeff = 1, term_exponent = [1]\<rparr>)) = 2"
  by code_simp

section \<open>The shifts\<close>

text \<open>
  Claim C9. For every series \<open>f\<close> and every integer \<open>n\<close>, \<open>f >> n\<close> is \<open>f << (-n)\<close>:
  the same result, or the same error.
\<close>

theorem rshift_is_lshift_neg: "rshift_op P f n = lshift_op P f (- n)"
  by (simp add: rshift_op_def lshift_op_def)

text \<open>The doctests of the shifts, on \<open>f = x + 2*x^2 + x^3\<close>.\<close>

lemma shift_doctests:
  "rshift_op A_Zp (series [([1], 1), ([2], 2), ([3], 1)]) (- 2) =
     Inr (series [([1], 4), ([2], 8), ([3], 4)])"
  "rshift_op A_Zp (series [([1], 1), ([2], 2), ([3], 1)]) 1 = Inr (series [([2], 1)])"
  "lshift_op A_Zp (series [([1], 1), ([2], 2), ([3], 1)]) (- 1) = Inr (series [([2], 1)])"
  by code_simp+

section \<open>Construction from a series or a term of another algebra\<close>

lemma check_radii_cases:
  assumes "\<forall>i\<in>set idx. i < length lr \<and> i < length xlr"
  shows "check_radii lr xlr ratio idx =
         (if \<exists>i\<in>set idx. lr ! i > xlr ! i * ratio then Inl ValueError_bigger_domain else Inr ())"
  using assms by (induction idx) auto

lemma element_init_restriction_element:
  assumes "ident xparent \<noteq> ident P" and "variable_names xparent = variable_names P"
    and "length (log_radii P) = ngens P" and "length (log_radii xparent) = ngens P"
    and "absolute_e (base xparent) \<noteq> 0"
    and "rd \<longrightarrow> (\<forall>n. prec = Some n \<longrightarrow> is_integral_prec n)"
  shows "\<exists>e. element_init P (From_element xparent xc) prec rd =
         (if \<exists>i<ngens P. log_radii P ! i >
               log_radii xparent ! i * (absolute_e (base P) / absolute_e (base xparent))
          then Inl ValueError_bigger_domain
          else Inr e)"
  using assms
  by (auto simp: element_init_def Let_def check_radii_cases ramification_ratio_def
      reduce_coefficients_integral is_integral_prec_min split: option.splits)

lemma element_init_restriction_term:
  assumes "variable_names xparent = variable_names P"
    and "length (log_radii P) = ngens P" and "length (log_radii xparent) = ngens P"
    and "absolute_e (base xparent) \<noteq> 0"
    and "rd \<longrightarrow> (\<forall>n. prec = Some n \<longrightarrow> is_integral_prec n)"
  shows "\<exists>e. element_init P (From_term xparent t) prec rd =
         (if \<exists>i<ngens P. log_radii P ! i >
               log_radii xparent ! i * (absolute_e (base P) / absolute_e (base xparent))
          then Inl ValueError_bigger_domain
          else Inr e)"
  using assms
  by (auto simp: element_init_def Let_def check_radii_cases ramification_ratio_def
      reduce_coefficients_integral is_integral_prec_min split: option.splits)

text \<open>
  Whatever precision is given, the error \<open>Cannot restrict to a bigger domain\<close> is raised
  exactly when some log-radius of the target is greater than the scaled one of the
  source; the one other failure of such a construction is the reduction at a precision
  that is not integral.
\<close>

lemma element_init_bigger_domain_element:
  assumes "ident xparent \<noteq> ident P" and "variable_names xparent = variable_names P"
    and "length (log_radii P) = ngens P" and "length (log_radii xparent) = ngens P"
    and "absolute_e (base xparent) \<noteq> 0"
  shows "element_init P (From_element xparent xc) prec rd = Inl ValueError_bigger_domain \<longleftrightarrow>
          (\<exists>i<ngens P. log_radii P ! i >
               log_radii xparent ! i * (absolute_e (base P) / absolute_e (base xparent)))"
  using assms
  by (auto simp: element_init_def Let_def check_radii_cases ramification_ratio_def
      reduce_coefficients_def split: option.splits)

lemma element_init_bigger_domain_term:
  assumes "variable_names xparent = variable_names P"
    and "length (log_radii P) = ngens P" and "length (log_radii xparent) = ngens P"
    and "absolute_e (base xparent) \<noteq> 0"
  shows "element_init P (From_term xparent t) prec rd = Inl ValueError_bigger_domain \<longleftrightarrow>
          (\<exists>i<ngens P. log_radii P ! i >
               log_radii xparent ! i * (absolute_e (base P) / absolute_e (base xparent)))"
  using assms
  by (auto simp: element_init_def Let_def check_radii_cases ramification_ratio_def
      reduce_coefficients_def split: option.splits)

text \<open>
  Claim C5, as the source has it. From a series or a term of another algebra with the
  same variable names, the constructor fails exactly when some log-radius of the target
  is greater than the log-radius of the source scaled by the ratio of the ramification
  indices of the base rings, and it succeeds when every log-radius of the target is at
  most the scaled one of the source. Both algebras have one log-radius per variable,
  the ramification index of the source is not zero, and a precision given to the
  constructor for the reduction is integral or infinite.
\<close>

theorem element_init_restriction:
  assumes "ident xparent \<noteq> ident P" and "variable_names xparent = variable_names P"
    and "length (log_radii P) = ngens P" and "length (log_radii xparent) = ngens P"
    and "absolute_e (base xparent) \<noteq> 0"
    and "rd \<longrightarrow> (\<forall>n. prec = Some n \<longrightarrow> is_integral_prec n)"
  shows "((\<exists>err. element_init P (From_element xparent xc) prec rd = Inl err) \<longleftrightarrow>
            (\<exists>i<ngens P. log_radii P ! i >
               log_radii xparent ! i * (absolute_e (base P) / absolute_e (base xparent)))) \<and>
         ((\<exists>err. element_init P (From_term xparent t) prec rd = Inl err) \<longleftrightarrow>
            (\<exists>i<ngens P. log_radii P ! i >
               log_radii xparent ! i * (absolute_e (base P) / absolute_e (base xparent)))) \<and>
         ((\<forall>i<ngens P. log_radii P ! i \<le>
               log_radii xparent ! i * (absolute_e (base P) / absolute_e (base xparent))) \<longrightarrow>
            (\<exists>e. element_init P (From_element xparent xc) prec rd = Inr e) \<and>
            (\<exists>e. element_init P (From_term xparent t) prec rd = Inr e))"
proof -
  from element_init_restriction_element [OF assms, of xc]
  obtain e1 where e1: "element_init P (From_element xparent xc) prec rd =
         (if \<exists>i<ngens P. log_radii P ! i >
               log_radii xparent ! i * (absolute_e (base P) / absolute_e (base xparent))
          then Inl ValueError_bigger_domain
          else Inr e1)" ..
  from element_init_restriction_term [OF assms(2-6), of t]
  obtain e2 where e2: "element_init P (From_term xparent t) prec rd =
         (if \<exists>i<ngens P. log_radii P ! i >
               log_radii xparent ! i * (absolute_e (base P) / absolute_e (base xparent))
          then Inl ValueError_bigger_domain
          else Inr e2)" ..
  show ?thesis
    unfolding e1 e2 by (auto simp: not_less)
qed

text \<open>
  The doctest of \<open>restriction\<close>: from the log-radius 0 to the log-radius \<open>-1\<close>, where
  the series converge on a smaller domain.
\<close>

theorem element_init_restriction_witness:
  "ident A_Zp \<noteq> ident A_Zp_small \<and> variable_names A_Zp = variable_names A_Zp_small \<and>
   length (log_radii A_Zp_small) = ngens A_Zp_small \<and>
   length (log_radii A_Zp) = ngens A_Zp_small \<and>
   absolute_e (base A_Zp) \<noteq> 0 \<and>
   is_integral_prec (Fin 5) \<and>
   log_radii A_Zp_small ! 0 \<le>
     log_radii A_Zp ! 0 * (absolute_e (base A_Zp_small) / absolute_e (base A_Zp)) \<and>
   element_init A_Zp_small (From_element A_Zp (series [([1], 1), ([2], 2)])) (Some (Fin 5)) True =
     Inr \<lparr>elt_poly = [([1], 1), ([2], 2)], elt_prec = Fin 5\<rparr> \<and>
   element_init A_Zp_small (From_term A_Zp \<lparr>term_coeff = 1, term_exponent = [1]\<rparr>)
       (Some (Fin 5)) True =
     Inr \<lparr>elt_poly = [([1], 1)], elt_prec = Fin 5\<rparr>"
proof -
  have h1: "ident A_Zp \<noteq> ident A_Zp_small"
    by code_simp
  have h2: "variable_names A_Zp = variable_names A_Zp_small"
    by code_simp
  have h3: "length (log_radii A_Zp_small) = ngens A_Zp_small"
    by code_simp
  have h4: "length (log_radii A_Zp) = ngens A_Zp_small"
    by code_simp
  have h5: "absolute_e (base A_Zp) \<noteq> 0"
    by code_simp
  have i: "is_integral_prec (Fin 5)"
    by code_simp
  then have h6: "True \<longrightarrow> (\<forall>n. Some (Fin 5) = Some n \<longrightarrow> is_integral_prec n)"
    by simp
  have r: "log_radii A_Zp_small ! 0 \<le>
     log_radii A_Zp ! 0 * (absolute_e (base A_Zp_small) / absolute_e (base A_Zp))"
    by code_simp
  have e: "element_init A_Zp_small (From_element A_Zp (series [([1], 1), ([2], 2)]))
             (Some (Fin 5)) True =
     Inr \<lparr>elt_poly = [([1], 1), ([2], 2)], elt_prec = Fin 5\<rparr>"
    by code_simp
  have t: "element_init A_Zp_small (From_term A_Zp \<lparr>term_coeff = 1, term_exponent = [1]\<rparr>)
             (Some (Fin 5)) True =
     Inr \<lparr>elt_poly = [([1], 1)], elt_prec = Fin 5\<rparr>"
    by code_simp
  from element_init_restriction [OF h1 h2 h3 h4 h5 h6] h1 h2 h3 h4 h5 i r e t show ?thesis
    by simp
qed

text \<open>
  As the spec states it, with the log-radii of the target at least those of the source,
  the claim fails in both directions. From the log-radius 0 to the log-radius \<open>-1\<close>, which
  is smaller, the construction succeeds; from 0 to 1, which is greater, it fails.
\<close>

theorem element_init_restriction_counterexample:
  "\<not> log_radii A_Zp_small ! 0 \<ge>
      log_radii A_Zp ! 0 * (absolute_e (base A_Zp_small) / absolute_e (base A_Zp)) \<and>
   element_init A_Zp_small (From_element A_Zp (series [([1], 1)])) None True =
     Inr (series [([1], 1)]) \<and>
   log_radii A_Zp_big ! 0 \<ge>
      log_radii A_Zp ! 0 * (absolute_e (base A_Zp_big) / absolute_e (base A_Zp)) \<and>
   element_init A_Zp_big (From_element A_Zp (series [([1], 1)])) None True =
     Inl ValueError_bigger_domain"
  by code_simp

section \<open>The leading coefficient of zero\<close>

lemma leading_coefficient_zero:
  "is_zero P f \<Longrightarrow> leading_coefficient P f = Inl TypeError_arguments"
  by (simp add: leading_coefficient_def base_ring_method_def)

text \<open>
  Claim C10. On the zero series \<open>leading_term\<close> returns \<open>None\<close>, and
  \<open>leading_coefficient\<close> does not return the zero of the base ring: the call
  \<open>self.base_ring(0)\<close> gives the accessor an argument that it does not take.
\<close>

theorem leading_coefficient_zero_fails:
  "is_zero A_Zp (series []) \<and>
   leading_term A_Zp (series []) = Inr None \<and>
   leading_coefficient A_Zp (series []) = Inl TypeError_arguments"
  by code_simp

section \<open>Reduction modulo an ideal\<close>

lemma reduce_is_quo_rem: "reduce P groebner_basis f I = quo_rem P f (groebner_basis I) False"
  by (simp add: reduce_def)

lemma mod_op_of_reduce:
  "mod_op P f (groebner_basis I) = map_option (map_sum id snd) (reduce P groebner_basis f I)"
  by (simp add: reduce_def mod_op_def split: option.splits sum.splits)

text \<open>
  Claim C6. \<open>reduce\<close> returns what \<open>quo_rem\<close> returns, the list of quotients together
  with the remainder, where \<open>__mod__\<close> returns the remainder alone: for \<open>x^2 + 1\<close> and the
  basis \<open>[x]\<close> the pair of \<open>[x]\<close> and \<open>1\<close>, not \<open>1\<close>.
\<close>

theorem reduce_returns_pair:
  "reduce A_Zp (\<lambda>I. I) (series [([2], 1), ([0], 1)]) [series [([1], 1)]] =
     Some (Inr ([\<lparr>elt_poly = [([1], 1)], elt_prec = Fin 10\<rparr>],
                \<lparr>elt_poly = [([0], 1)], elt_prec = Fin 10\<rparr>)) \<and>
   mod_op A_Zp (series [([2], 1), ([0], 1)]) [series [([1], 1)]] =
     Some (Inr \<lparr>elt_poly = [([0], 1)], elt_prec = Fin 10\<rparr>)"
  by code_simp

section \<open>The inverse of a unit of positive valuation\<close>

text \<open>
  What \<open>inverse_of_unit\<close> returns for a unit: the result of the iteration, run on the
  series itself from the inverse of the unit part \<open>c\<close> of the leading coefficient
  \<open>pi^v * c\<close>, shifted by \<open>v\<close> to the left.
\<close>

lemma inverse_of_unit_shift:
  assumes "is_unit P f = Inr True" and "leading_term P f = Inr (Some t)"
    and "val_unit (base P) (coefficient t) = (v, c)"
    and "element_init P (From_coeff (c_inverse_of_unit (base P) c))
           (Some (Fin (of_int (precision_cap P)))) True = Inr inv0"
    and "add_bigoh P f (Fin (of_int (precision_cap P))) = Inr x"
    and "newton_loop P f (precision_cap P) 1 inv0 = Some (Inr inv1)"
  shows "inverse_of_unit P f = Some (lshift_op P inv1 v)"
  using assms by (simp add: inverse_of_unit_def Let_def)

text \<open>
  Where the leading coefficient is a unit of the base ring, \<open>v = 0\<close>, the iteration
  converges: the inverse of \<open>2*x + 1\<close> times \<open>2*x + 1\<close>, truncated to the precision 10,
  is 1 truncated to the precision 10.
\<close>

lemma inverse_of_unit_doctest:
  "ebind (mul A_Zp (series [([0], 1), ([1], 2)])
            \<lparr>elt_poly =
                [([0], 1), ([1], - 2), ([2], 4), ([3], - 8), ([4], 16), ([5], - 32),
                 ([6], 64), ([7], - 128), ([8], 256), ([9], - 512)],
              elt_prec = Fin 10\<rparr>)
     (\<lambda>p. add_bigoh A_Zp p (Fin 10)) =
   ebind (element_init A_Zp (From_int 1) None True) (\<lambda>one. add_bigoh A_Zp one (Fin 10))"
  by code_simp

text \<open>
  Claim C3. Over the 2-adic numbers, with precision cap 10, the constant series 2 is a
  unit. Its leading coefficient is \<open>2^1 * 1\<close>; the iteration runs on the series itself
  and reaches zero at the first round, and the result is shifted by \<open>+1\<close>:
  \<open>inverse_of_unit\<close> returns zero, and the product with 2 is zero, not one.
\<close>

theorem inverse_of_unit_two:
  "is_unit A_Qp (series [([0], 2)]) = Inr True \<and>
   val_unit (base A_Qp) 2 = (1, 1) \<and>
   inverse_of_unit A_Qp (series [([0], 2)]) = Some (Inr \<lparr>elt_poly = [], elt_prec = Fin 15\<rparr>) \<and>
   ebind (mul A_Qp (series [([0], 2)]) \<lparr>elt_poly = [], elt_prec = Fin 15\<rparr>)
     (\<lambda>p. add_bigoh A_Qp p (Fin 10)) = Inr \<lparr>elt_poly = [], elt_prec = Fin 10\<rparr> \<and>
   ebind (element_init A_Qp (From_int 1) None True)
     (\<lambda>one. add_bigoh A_Qp one (Fin 10)) = Inr \<lparr>elt_poly = [([0], 1)], elt_prec = Fin 10\<rparr>"
  by code_simp

section \<open>The guard of the inversion\<close>

lemma fold_max_zero_iff: "fold max xs (x::nat) = 0 \<longleftrightarrow> x = 0 \<and> (\<forall>y\<in>set xs. y = 0)"
  by (induction xs arbitrary: x) (auto simp: max_def)

lemma all_zero_iff_replicate:
  "(\<forall>y\<in>set e. y = (0::nat)) \<longleftrightarrow> e = replicate (length e) 0"
  by (metis in_set_replicate replicate_length_same)

lemma py_max_zero_iff:
  assumes "length e = n" and "0 < n"
  shows "\<exists>m. py_max e = Inr m \<and> (m = 0 \<longleftrightarrow> e = replicate n 0)"
proof (cases e)
  case Nil
  with assms show ?thesis by simp
next
  case (Cons x xs)
  have "fold max xs x = 0 \<longleftrightarrow> (\<forall>y\<in>set e. y = 0)"
    unfolding fold_max_zero_iff Cons by simp
  also have "\<dots> \<longleftrightarrow> e = replicate n 0"
    using all_zero_iff_replicate [of e] assms(1) by simp
  finally show ?thesis
    using Cons by simp
qed

lemma is_unit_cases:
  assumes "well_formed P f" and "0 < ngens P"
  shows "is_unit P f =
         Inr (\<not> (is_zero P f \<or>
                 (\<exists>t. leading_term P f = Inr (Some t) \<and>
                      (exponent t \<noteq> replicate (ngens P) 0 \<or>
                       (\<not> is_field (base P) \<and> Fin 0 < term_valuation P t)))))"
proof (cases "is_zero P f")
  case True
  then show ?thesis by (simp add: is_unit_def)
next
  case False
  from leading_term_ok [OF assms(1) False] obtain t
    where t: "leading_term P f = Inr (Some t)" "length (exponent t) = ngens P" by blast
  from py_max_zero_iff [OF t(2) assms(2)] obtain m
    where m: "py_max (exponent t) = Inr m" "m = 0 \<longleftrightarrow> exponent t = replicate (ngens P) 0"
    by blast
  show ?thesis
    using False t(1) m by (auto simp: is_unit_def base_ring_method_def)
qed

text \<open>
  No step of the inversion after the guard raises the error of the guard.
\<close>

lemma check_radii_not_invertible [simp]:
  "check_radii lr xlr ratio idx \<noteq> Inl ValueError_not_invertible"
  by (induction idx) auto

lemma element_init_not_invertible [simp]:
  "element_init P x prec rd \<noteq> Inl ValueError_not_invertible"
  by (auto simp: element_init_def ebind_def ramification_ratio_def reduce_coefficients_def Let_def
      split: init_arg.splits sum.splits prod.splits if_splits option.splits)

lemma terms_of_dict_not_invertible [simp]:
  "terms_of_dict P d \<noteq> Inl ValueError_not_invertible"
  by (induction d) (auto simp: term_init_def ebind_def split: sum.splits if_splits)

lemma leading_term_not_invertible [simp]:
  "leading_term P f \<noteq> Inl ValueError_not_invertible"
  by (auto simp: leading_term_def terms_def ebind_def split: sum.splits list.splits if_splits)

lemma valuation_not_invertible [simp]:
  "valuation P f \<noteq> Inl ValueError_not_invertible"
  by (auto simp: valuation_def ebind_def Let_def split: sum.splits option.splits if_splits)

lemma mul_not_invertible [simp]: "mul P a b \<noteq> Inl ValueError_not_invertible"
  by (auto simp: mul_def ebind_def Let_def split: sum.splits)

lemma sub_not_invertible [simp]: "sub P a b \<noteq> Inl ValueError_not_invertible"
  by (simp add: sub_def)

lemma lmul_not_invertible [simp]: "lmul P a r \<noteq> Inl ValueError_not_invertible"
  by (auto simp: lmul_def ebind_def to_base_def Let_def split: sum.splits if_splits)

lemma newton_step_not_invertible [simp]:
  "newton_step P self inv0 \<noteq> Inl ValueError_not_invertible"
  by (auto simp: newton_step_def ebind_def split: sum.splits)

lemma newton_loop_not_invertible:
  assumes "newton_loop P self cap prec inv0 = Some y"
  shows "y \<noteq> Inl ValueError_not_invertible"
proof -
  have "(\<lambda>args y. y \<noteq> Inl ValueError_not_invertible) ((((P, self), cap), prec), inv0) y"
  proof (rule newton_loop.raw_induct [OF _ assms])
    fix loop P' self' cap' prec' inv' y'
    assume IH: "\<And>self cap prec inv0 b y.
        loop self cap prec inv0 b = Some y \<Longrightarrow> y \<noteq> Inl ValueError_not_invertible"
      and body: "(if prec' < cap'
          then case newton_step P' self' inv' of
                 Inl err \<Rightarrow> Some (Inl err)
               | Inr inv1 \<Rightarrow> loop P' self' cap' (prec' * 2) inv1
          else Some (Inr inv')) = Some y'"
    show "y' \<noteq> Inl ValueError_not_invertible"
      using body IH by (auto split: if_splits sum.splits)
  qed
  then show ?thesis .
qed

lemma mapE_not_invertible:
  assumes "\<And>x. g x \<noteq> Inl ValueError_not_invertible"
  shows "mapE g xs \<noteq> Inl ValueError_not_invertible"
  using assms by (induction xs) (auto simp: ebind_def split: sum.splits)

lemma lshift_not_invertible [simp]: "lshift_op P f n \<noteq> Inl ValueError_not_invertible"
proof -
  have "mapE (\<lambda>(exp, c).
                let minval = \<lceil>\<Sum>i\<leftarrow>[0..<ngens P]. of_nat (exp ! i) * (log_radii P ! i)\<rceil>
                in ebind (to_base (base P) c)
                     (\<lambda>b. Inr (exp, c_lshift (base P) (c_rshift (base P) b (minval - n)) minval)))
          (poly_normalize (base P) (elt_poly f)) \<noteq> Inl ValueError_not_invertible"
    by (rule mapE_not_invertible)
      (auto simp: ebind_def to_base_def Let_def split: sum.splits if_splits)
  then show ?thesis
    by (auto simp: lshift_op_def lshift_def ebind_def Let_def split: sum.splits)
qed

lemma inverse_of_unit_of_unit:
  assumes "is_unit P f = Inr True"
  shows "inverse_of_unit P f \<noteq> Some (Inl ValueError_not_invertible)"
proof
  assume r: "inverse_of_unit P f = Some (Inl ValueError_not_invertible)"
  show False
  proof (cases "leading_term P f")
    case (Inl err)
    with r assms show False by (simp add: inverse_of_unit_def)
  next
    case (Inr lt)
    show False
    proof (cases lt)
      case None
      with r assms Inr show False by (simp add: inverse_of_unit_def)
    next
      case (Some t)
      obtain v c where vc: "val_unit (base P) (coefficient t) = (v, c)"
        by (cases "val_unit (base P) (coefficient t)")
      let ?seed = "ebind (element_init P (From_coeff (c_inverse_of_unit (base P) c))
                            (Some (Fin (of_int (precision_cap P)))) True)
                     (\<lambda>inv0. ebind (add_bigoh P f (Fin (of_int (precision_cap P)))) (\<lambda>x. Inr inv0))"
      have seed: "?seed \<noteq> Inl ValueError_not_invertible"
        by (auto simp: ebind_def add_bigoh_def split: sum.splits)
      show False
      proof (cases ?seed)
        case (Inl err)
        with r assms Inr Some vc seed show False
          by (simp add: inverse_of_unit_def Let_def)
      next
        case seed_ok: (Inr inv0)
        show False
        proof (cases "newton_loop P f (precision_cap P) 1 inv0")
          case None
          with r assms Inr Some vc seed_ok show False
            by (simp add: inverse_of_unit_def Let_def)
        next
          case loop: (Some y)
          from newton_loop_not_invertible [OF loop] have y: "y \<noteq> Inl ValueError_not_invertible" .
          show False
          proof (cases y)
            case (Inl err)
            with r assms Inr Some vc seed_ok loop y show False
              by (simp add: inverse_of_unit_def Let_def)
          next
            case res: (Inr inv1)
            with r assms Inr Some vc seed_ok loop show False
              by (simp add: inverse_of_unit_def Let_def)
          qed
        qed
      qed
    qed
  qed
qed

text \<open>
  The guard is as the spec describes it: for a series of an algebra with at least one
  variable, \<open>inverse_of_unit\<close> raises \<open>This series in not invertible\<close> exactly when the
  series is zero, or the exponent of its leading term is not zero, or the base ring is
  not a field and the leading term has positive valuation.
\<close>

lemma inverse_of_unit_guard:
  assumes "well_formed P f" and "0 < ngens P"
  shows "inverse_of_unit P f = Some (Inl ValueError_not_invertible) \<longleftrightarrow>
            is_zero P f \<or>
            (\<exists>t. leading_term P f = Inr (Some t) \<and>
                 (exponent t \<noteq> replicate (ngens P) 0 \<or>
                  (\<not> is_field (base P) \<and> Fin 0 < term_valuation P t)))"
proof (cases "is_zero P f \<or>
            (\<exists>t. leading_term P f = Inr (Some t) \<and>
                 (exponent t \<noteq> replicate (ngens P) 0 \<or>
                  (\<not> is_field (base P) \<and> Fin 0 < term_valuation P t)))")
  case True
  then have "is_unit P f = Inr False"
    unfolding is_unit_cases [OF assms] by simp
  then have "inverse_of_unit P f = Some (Inl ValueError_not_invertible)"
    by (simp add: inverse_of_unit_def)
  with True show ?thesis by simp
next
  case False
  then have "is_unit P f = Inr True"
    unfolding is_unit_cases [OF assms] by simp
  from inverse_of_unit_of_unit [OF this] False show ?thesis by simp
qed

section \<open>A unit whose inversion raises\<close>

text \<open>
  Claim C7. In the algebra in \<open>x\<close> over the 2-adic integers with log-radius \<open>-1\<close>, the
  series \<open>1 + (1/2)*x^2\<close>, which is \<open>1 + (x^2 >> 1)\<close>, is a unit: its leading term is 1.
  \<open>inverse_of_unit\<close> does not return its inverse. The iteration runs, and the shift by
  \<open>v = 0\<close> that ends the inversion converts every coefficient into the base ring:
  the coefficient \<open>-1/2\<close> of \<open>x^2\<close> has valuation \<open>-1\<close>, and the conversion raises.
\<close>

theorem inverse_of_unit_raises_on_unit:
  "ebind (rshift_op A_Zp_small (series [([2], 1)]) 1) (\<lambda>h. add A_Zp_small (series [([0], 1)]) h) =
     Inr (series [([0], 1), ([2], 1 / 2)]) \<and>
   leading_term A_Zp_small (series [([0], 1), ([2], 1 / 2)]) =
     Inr (Some \<lparr>term_coeff = 1, term_exponent = [0]\<rparr>) \<and>
   is_unit A_Zp_small (series [([0], 1), ([2], 1 / 2)]) = Inr True \<and>
   val_unit (base A_Zp_small) 1 = (0, 1) \<and>
   newton_step A_Zp_small (series [([0], 1), ([2], 1 / 2)]) \<lparr>elt_poly = [([0], 1)], elt_prec = Fin 10\<rparr> =
     Inr \<lparr>elt_poly = [([0], 1), ([2], - (1 / 2))], elt_prec = Fin 10\<rparr> \<and>
   lshift_op A_Zp_small \<lparr>elt_poly = [([0], 1), ([2], - (1 / 2))], elt_prec = Fin 10\<rparr> 0 =
     Inl ValueError_not_in_base_ring \<and>
   inverse_of_unit A_Zp_small (series [([0], 1), ([2], 1 / 2)]) =
     Some (Inl ValueError_not_in_base_ring)"
  by code_simp

text \<open>
  The doctests of \<open>inverse_of_unit\<close>, where every coefficient is in the base ring:
  \<open>2*x + 1\<close> is inverted, with precision 10, and \<open>1 + x\<close>, whose leading term is \<open>x\<close>, is
  refused.
\<close>

lemma inverse_of_unit_doctests:
  "inverse_of_unit A_Zp (series [([0], 1), ([1], 2)]) =
     Some (Inr \<lparr>elt_poly =
                  [([0], 1), ([1], - 2), ([2], 4), ([3], - 8), ([4], 16), ([5], - 32),
                   ([6], 64), ([7], - 128), ([8], 256), ([9], - 512)],
                elt_prec = Fin 10\<rparr>)"
  "inverse_of_unit A_Zp (series [([0], 1), ([1], 1)]) = Some (Inl ValueError_not_invertible)"
  by code_simp+

section \<open>A division that does not end\<close>

text \<open>
  With the log-radius 0 the division ends: \<open>x^2\<close> by \<open>[x]\<close> gives the quotient \<open>[x]\<close>
  and the remainder 0, and 1 by \<open>[1 - 2*x]\<close> the quotient \<open>1 + 2*x + ... + (2*x)^9\<close>.
\<close>

lemma quo_rem_doctests:
  "quo_rem A_Zp (series [([2], 1)]) [series [([1], 1)]] False =
     Some (Inr ([\<lparr>elt_poly = [([1], 1)], elt_prec = Fin 10\<rparr>],
                \<lparr>elt_poly = [], elt_prec = Fin 10\<rparr>))"
  "quo_rem A_Zp (series [([0], 1)]) [series [([0], 1), ([1], - 2)]] False =
     Some (Inr ([\<lparr>elt_poly =
                    [([0], 1), ([1], 2), ([2], 4), ([3], 8), ([4], 16), ([5], 32),
                     ([6], 64), ([7], 128), ([8], 256), ([9], 512)],
                  elt_prec = Fin 10\<rparr>],
                \<lparr>elt_poly = [], elt_prec = Fin 10\<rparr>))"
  by code_simp+


lemma Fin_less [simp]: "Fin a < Fin b \<longleftrightarrow> a < b"
  by (auto simp: less_ext_def)

lemma PInf_le_Fin [simp]: "\<not> PInf \<le> Fin a"
  by simp

lemma val2_one [simp]: "val2 1 = Fin 0"
  by code_simp

lemma val2_minus_one [simp]: "val2 (- 1) = Fin 0"
  by code_simp

lemma small_fields [simp]:
  "base A_Zp_small = two_adic False"
  "ngens A_Zp_small = 1"
  "variable_names A_Zp_small = [''x'']"
  "log_radii A_Zp_small = [- 1]"
  "precision_cap A_Zp_small = 10"
  "sortkey A_Zp_small = sortkey_degrevlex"
  by (simp_all add: A_Zp_small_def tate_algebra_def ngens_def)

lemma two_adic_fields [simp]:
  "is_field (two_adic fl) = fl"
  "absolute_e (two_adic fl) = 1"
  "c_zero (two_adic fl) = 0"
  "c_add (two_adic fl) a b = a + b"
  "c_neg (two_adic fl) a = - a"
  "c_mul (two_adic fl) a b = a * b"
  "c_div (two_adic fl) a b = a / b"
  "c_valuation (two_adic fl) a = val2 a"
  "c_add_bigoh (two_adic fl) a n = (if n \<le> val2 a then 0 else a)"
  by (simp_all add: two_adic_def)

lemma term_valuation_x: "term_valuation A_Zp_small \<lparr>term_coeff = 1, term_exponent = [k]\<rparr> = Fin (of_nat k)"
  by (simp add: term_valuation_def)

lemma is_zero_x: "\<not> is_zero A_Zp_small (monomial_x k)"
  by (simp add: is_zero_def poly_is_zero_def poly_normalize_def monomial_x_def)

lemma leading_term_x:
  "leading_term A_Zp_small (monomial_x k) = Inr (Some \<lparr>term_coeff = 1, term_exponent = [k]\<rparr>)"
  apply (simp only: leading_term_def terms_def is_zero_x if_False)
  apply (simp add: dict_def poly_normalize_def monomial_x_def term_init_def sort_reverse_def)
  done

lemma leading_term_divisor:
  "leading_term A_Zp_small geom_divisor = Inr (Some \<lparr>term_coeff = 1, term_exponent = [0]\<rparr>)"
  by code_simp

lemma valuation_divisor: "valuation A_Zp_small geom_divisor = Inr 0"
  by code_simp

lemma element_of_term_x:
  "element_of_term A_Zp_small \<lparr>term_coeff = 1, term_exponent = [k]\<rparr> = Inr (series [([k], 1)])"
  by (simp add: element_of_term_def element_init_def ramification_ratio_def poly_monomial_def
      reduce_coefficients_def poly_normalize_def map_coefficients_def coefficient_def
      exponent_def series_def)

lemma valuation_x: "\<exists>v. valuation A_Zp_small (series [([k], 1)]) = Inr v"
  by (simp add: valuation_def leading_term_def terms_def is_zero_def poly_is_zero_def
      dict_def poly_normalize_def series_def term_init_def sort_reverse_def)

lemma mul_x:
  "mul A_Zp_small (series [([k], 1)]) geom_divisor = Inr (series [([k], 1), ([Suc k], - 1)])"
proof -
  from valuation_x obtain v where v: "valuation A_Zp_small (series [([k], 1)]) = Inr v" ..
  show ?thesis
    apply (simp only: mul_def v valuation_divisor ebind_Inr Let_def element_init_poly)
    apply (simp add: polynomial_def precision_absolute_def geom_divisor_def series_def
        poly_mul_def etuple_add_def reduce_coefficients_def poly_normalize_def
        map_coefficients_def)
    done
qed

lemma sub_x:
  "sub A_Zp_small (monomial_x k) (series [([k], 1), ([Suc k], - 1)]) = Inr (monomial_x (Suc k))"
  by (simp add: sub_def element_init_poly polynomial_def precision_absolute_def series_def
      monomial_x_def poly_sub_def poly_neg_def poly_add_def reduce_coefficients_def
      poly_normalize_def map_coefficients_def)


lemma term_is_divisible_by_x:
  "term_is_divisible_by A_Zp_small \<lparr>term_coeff = 1, term_exponent = [k]\<rparr>
     (Some \<lparr>term_coeff = 1, term_exponent = [0]\<rparr>) False = Inr True"
  by (simp add: term_is_divisible_by_def term_valuation_x term_valuation_x [of 0, simplified]
      exponent_def)

lemma term_floordiv_x:
  "term_floordiv A_Zp_small \<lparr>term_coeff = 1, term_exponent = [k]\<rparr>
     \<lparr>term_coeff = 1, term_exponent = [0]\<rparr> = Inr \<lparr>term_coeff = 1, term_exponent = [k]\<rparr>"
  by (simp add: term_floordiv_def term_valuation_x term_valuation_x [of 0, simplified]
      exponent_def coefficient_def term_init_def etuple_sub_def)

text \<open>
  The sum of a series of integral precision and an exact series is returned, with the
  precision of the first.
\<close>

lemma add_exact:
  assumes "is_integral_prec (elt_prec a)" and "elt_prec b = PInf"
  shows "\<exists>c. add P a b = Inr c \<and> elt_prec c = elt_prec a"
  using assms
  by (simp add: add_def element_init_poly precision_absolute_def reduce_coefficients_integral)

lemma quo_rem_step_x:
  assumes "q \<noteq> []" and "is_integral_prec (elt_prec (q ! 0))"
  shows "\<exists>q'. quo_rem_step A_Zp_small [geom_divisor] [Some \<lparr>term_coeff = 1, term_exponent = [0]\<rparr>] False
           (monomial_x k) q r = Inr (monomial_x (Suc k), q', r) \<and>
           q' \<noteq> [] \<and> is_integral_prec (elt_prec (q' ! 0))"
proof -
  from add_exact [OF assms(2), of "series [([k], 1)]" A_Zp_small] obtain qi
    where qi: "add A_Zp_small (q ! 0) (series [([k], 1)]) = Inr qi"
      and pi: "elt_prec qi = elt_prec (q ! 0)"
    by (auto simp: series_def)
  have "quo_rem_step A_Zp_small [geom_divisor] [Some \<lparr>term_coeff = 1, term_exponent = [0]\<rparr>] False
           (monomial_x k) q r = Inr (monomial_x (Suc k), q[0 := qi], r)"
    using assms(1)
    by (simp add: quo_rem_step_def leading_term_x term_is_divisible_by_x nth_err_def term_floordiv_x
        element_of_term_x mul_x sub_x qi)
  with assms pi show ?thesis by simp
qed

lemma quo_rem_loop_diverges:
  assumes "q \<noteq> []" and "is_integral_prec (elt_prec (q ! 0))"
  shows "quo_rem_loop A_Zp_small [geom_divisor] [Some \<lparr>term_coeff = 1, term_exponent = [0]\<rparr>] False
           (monomial_x k) q r = None"
proof (rule ccontr)
  assume "quo_rem_loop A_Zp_small [geom_divisor] [Some \<lparr>term_coeff = 1, term_exponent = [0]\<rparr>] False
           (monomial_x k) q r \<noteq> None"
  then obtain y where y: "quo_rem_loop A_Zp_small [geom_divisor]
           [Some \<lparr>term_coeff = 1, term_exponent = [0]\<rparr>] False (monomial_x k) q r = Some y"
    by blast
  define bad where "bad = (\<lambda>(x :: (((((((rat, nat \<times> int list) parent \<times> rat tate_element list) \<times>
           rat tate_term option list) \<times> bool) \<times> rat tate_element) \<times> rat tate_element list) \<times>
           rat tate_element)) (y :: error + rat tate_element list \<times> rat tate_element).
       case x of ((((((P', ds), ltds), integral), f), q), r) \<Rightarrow>
         \<not> (P' = A_Zp_small \<and> ds = [geom_divisor] \<and>
            ltds = [Some \<lparr>term_coeff = 1, term_exponent = [0]\<rparr>] \<and> \<not> integral \<and>
            (\<exists>k. f = monomial_x k) \<and> q \<noteq> [] \<and> is_integral_prec (elt_prec (q ! 0))))"
  have "bad ((((((A_Zp_small, [geom_divisor]), [Some \<lparr>term_coeff = 1, term_exponent = [0]\<rparr>]), False),
            monomial_x k), q), r) y"
  proof (rule quo_rem_loop.raw_induct [OF _ y])
    fix loop P' ds ltds integral f q r y
    assume IH: "\<And>ds ltds integral f q r b y.
        loop ds ltds integral f q r b = Some y \<Longrightarrow>
        bad ((((((ds, ltds), integral), f), q), r), b) y"
      and body: "(if is_zero P' f then Some (Inr (q, r))
          else case quo_rem_step P' ds ltds integral f q r of
                 Inl err \<Rightarrow> Some (Inl err)
               | Inr (f', q', r') \<Rightarrow> loop P' ds ltds integral f' q' r') = Some y"
    show "bad ((((((P', ds), ltds), integral), f), q), r) y"
    proof (rule ccontr)
      assume "\<not> bad ((((((P', ds), ltds), integral), f), q), r) y"
      then obtain k where m: "P' = A_Zp_small" "ds = [geom_divisor]"
          "ltds = [Some \<lparr>term_coeff = 1, term_exponent = [0]\<rparr>]" "\<not> integral"
          "f = monomial_x k" "q \<noteq> []" "is_integral_prec (elt_prec (q ! 0))"
        by (auto simp: bad_def)
      from quo_rem_step_x [OF m(6,7), of k r] obtain q'
        where s: "quo_rem_step A_Zp_small [geom_divisor]
                    [Some \<lparr>term_coeff = 1, term_exponent = [0]\<rparr>] False (monomial_x k) q r =
                  Inr (monomial_x (Suc k), q', r)"
          and q': "q' \<noteq> []" "is_integral_prec (elt_prec (q' ! 0))"
        by blast
      from body have "loop A_Zp_small [geom_divisor]
          [Some \<lparr>term_coeff = 1, term_exponent = [0]\<rparr>] False (monomial_x (Suc k)) q' r = Some y"
        using m s by (simp add: is_zero_x)
      from IH [OF this] show False
        using q' by (auto simp: bad_def)
    qed
  qed
  with assms show False
    by (auto simp: bad_def)
qed

lemma quo_rem_start:
  "mapE (leading_term A_Zp_small) [geom_divisor] = Inr [Some \<lparr>term_coeff = 1, term_exponent = [0]\<rparr>]"
  "add_bigoh A_Zp_small (series [([0], 1)]) (Fin 10) = Inr (monomial_x 0)"
  "element_init A_Zp_small (From_int 0) (Some (Fin 10)) True = Inr \<lparr>elt_poly = [], elt_prec = Fin 10\<rparr>"
  by code_simp+

text \<open>
  Claim C2. In the algebra in \<open>x\<close> over the 2-adic integers with log-radius \<open>-1\<close> and
  precision cap 10, the division of 1 by the divisor \<open>1 - x\<close>, which is not zero, does
  not return: the running dividend is \<open>x^k\<close> at the round \<open>k\<close>, with a coefficient of
  valuation 0 that the truncation to the cap keeps.
\<close>

theorem quo_rem_does_not_return:
  "\<not> is_zero A_Zp_small geom_divisor \<and>
   quo_rem A_Zp_small (series [([0], 1)]) [geom_divisor] False = None"
proof
  show "\<not> is_zero A_Zp_small geom_divisor"
    by code_simp
  have "quo_rem A_Zp_small (series [([0], 1)]) [geom_divisor] False =
        quo_rem_loop A_Zp_small [geom_divisor] [Some \<lparr>term_coeff = 1, term_exponent = [0]\<rparr>] False
          (monomial_x 0) [\<lparr>elt_poly = [], elt_prec = Fin 10\<rparr>] \<lparr>elt_poly = [], elt_prec = Fin 10\<rparr>"
    by (simp add: quo_rem_def quo_rem_start valuation_divisor leading_term_divisor)
  then show "quo_rem A_Zp_small (series [([0], 1)]) [geom_divisor] False = None"
    by (simp add: quo_rem_loop_diverges)
qed

end
